theory Spec2Isabelle
  imports Complex_Main "HOL-Library.Monad_Syntax"
begin

section \<open>Numbers and partial operations\<close>

text \<open>
  The simulator computes with JavaScript numbers.  They are modelled as mathematical
  reals: rounding, overflow and underflow of IEEE doubles are not part of the model
  (the flow split is modelled a second time with rounding, further down).
  Where the source divides by a quantity that is not a literal constant, the model uses
  \<open>fdiv\<close>, whose result is \<open>None\<close> when the divisor is zero (the source would
  produce \<open>Infinity\<close> or \<open>NaN\<close> there).  A result \<open>Some v\<close> of a modelled function
  therefore says that every intermediate value of the run is a finite number.
  \<open>None\<close> is also the result where the source throws (\<open>reduce\<close> of an empty array
  without an initial value).
\<close>

definition fdiv :: "real \<Rightarrow> real \<Rightarrow> real option" where
  "fdiv a b = (if b = 0 then None else Some (a / b))"

text \<open>\<open>xs.map(f)\<close> for a fallible \<open>f\<close>: the first failure fails the whole map.\<close>

primrec traverse :: "('a \<Rightarrow> 'b option) \<Rightarrow> 'a list \<Rightarrow> 'b list option" where
  "traverse f [] = Some []"
| "traverse f (a # as) =
     (case f a of None \<Rightarrow> None
      | Some b \<Rightarrow> (case traverse f as of None \<Rightarrow> None | Some bs \<Rightarrow> Some (b # bs)))"

text \<open>
  \<open>xs.reduce(f)\<close> without an initial value: the first element starts the fold, and an
  empty array is a \<open>TypeError\<close>.
\<close>

definition reduce_noinit :: "('a \<Rightarrow> 'a \<Rightarrow> 'a) \<Rightarrow> 'a list \<Rightarrow> 'a option" where
  "reduce_noinit f xs = (case xs of [] \<Rightarrow> None | a # as \<Rightarrow> Some (foldl f a as))"

text \<open>
  \<open>Math.sqrt\<close> and \<open>Math.pow\<close> with a fractional exponent are \<open>NaN\<close> on a negative
  argument.
\<close>

definition fsqrt :: "real \<Rightarrow> real option" where
  "fsqrt a = (if a < 0 then None else Some (sqrt a))"

definition fpow :: "real \<Rightarrow> real \<Rightarrow> real option" where
  "fpow a e = (if a < 0 then None else Some (a powr e))"

text \<open>\<open>xs[i]\<close> is \<open>undefined\<close> outside the array.\<close>

definition nth_opt :: "'a list \<Rightarrow> nat \<Rightarrow> 'a option" where
  "nth_opt xs i = (if i < length xs then Some (xs ! i) else None)"

section \<open>Constants (constants.ts)\<close>

definition CARREAU_mu_inf :: real where "CARREAU_mu_inf = 0.00345"
definition CARREAU_mu_0 :: real where "CARREAU_mu_0 = 0.056"
definition CARREAU_lambda :: real where "CARREAU_lambda = 3.313"
definition CARREAU_n :: real where "CARREAU_n = 0.3568"

record CarreauParams =
  mu_inf :: real
  mu_0 :: real

record HctRow = CarreauParams +
  hct :: real

definition HCT_VISCOSITY_TABLE :: "HctRow list" where
  "HCT_VISCOSITY_TABLE =
    [\<lparr>mu_inf = 0.00220, mu_0 = 0.025, hct = 20\<rparr>,
     \<lparr>mu_inf = 0.00260, mu_0 = 0.032, hct = 25\<rparr>,
     \<lparr>mu_inf = 0.00280, mu_0 = 0.037, hct = 30\<rparr>,
     \<lparr>mu_inf = 0.00300, mu_0 = 0.042, hct = 35\<rparr>,
     \<lparr>mu_inf = 0.00320, mu_0 = 0.048, hct = 40\<rparr>,
     \<lparr>mu_inf = 0.00345, mu_0 = 0.056, hct = 45\<rparr>,
     \<lparr>mu_inf = 0.00400, mu_0 = 0.065, hct = 50\<rparr>,
     \<lparr>mu_inf = 0.00450, mu_0 = 0.075, hct = 55\<rparr>]"

definition BLOOD_DENSITY :: real where "BLOOD_DENSITY = 1060"

definition CANVAS_width :: real where "CANVAS_width = 800"
definition CANVAS_height :: real where "CANVAS_height = 500"
definition CANVAS_vesselScale :: real where "CANVAS_vesselScale = 28"

section \<open>Blood properties (blood-properties.ts)\<close>

text \<open>
  The loop of \<open>interpolateHctParams\<close> over the brackets \<open>table[i], table[i + 1]\<close>:
  the first bracket that holds \<open>h\<close> gives the interpolated pair; when the loop runs
  out, the source returns the base Carreau parameters.  The divisor of \<open>frac\<close> is a
  difference of two keys of the constant table.
\<close>

fun interpolateLoop :: "HctRow list \<Rightarrow> real \<Rightarrow> CarreauParams" where
  "interpolateLoop (a # b # rest) h =
     (if h \<ge> hct a \<and> h \<le> hct b then
        (let frac = (h - hct a) / (hct b - hct a)
         in \<lparr>mu_inf = mu_inf a + frac * (mu_inf b - mu_inf a),
             mu_0 = mu_0 a + frac * (mu_0 b - mu_0 a)\<rparr>)
      else interpolateLoop (b # rest) h)"
| "interpolateLoop _ h = \<lparr>mu_inf = CARREAU_mu_inf, mu_0 = CARREAU_mu_0\<rparr>"

definition interpolateHctParams :: "real \<Rightarrow> CarreauParams" where
  "interpolateHctParams h =
     (let table = HCT_VISCOSITY_TABLE in
      if h \<le> hct (table ! 0) then
        \<lparr>mu_inf = mu_inf (table ! 0), mu_0 = mu_0 (table ! 0)\<rparr>
      else if h \<ge> hct (table ! (length table - 1)) then
        \<lparr>mu_inf = mu_inf (table ! (length table - 1)),
         mu_0 = mu_0 (table ! (length table - 1))\<rparr>
      else interpolateLoop table h)"

definition carreauViscosity :: "real \<Rightarrow> real \<Rightarrow> real" where
  "carreauViscosity shearRate h =
     (let p = interpolateHctParams h;
          gammaDotClamped = max shearRate 0.1;
          trm = 1 + (CARREAU_lambda * gammaDotClamped) ^ 2
      in mu_inf p + (mu_0 p - mu_inf p) * (trm powr ((CARREAU_n - 1) / 2)))"

definition wallShearRate :: "real \<Rightarrow> real \<Rightarrow> real option" where
  "wallShearRate flowRate_m3s radius_m =
     do {
       newtonianShearRate \<leftarrow> fdiv (4 * flowRate_m3s) (pi * radius_m ^ 3);
       let correction = (3 * CARREAU_n + 1) / (4 * CARREAU_n);
       Some (correction * newtonianShearRate)
     }"

definition meanVelocity :: "real \<Rightarrow> real \<Rightarrow> real option" where
  "meanVelocity flowRate_m3s radius_m = fdiv flowRate_m3s (pi * radius_m * radius_m)"

definition reynoldsNumber :: "real \<Rightarrow> real \<Rightarrow> real \<Rightarrow> real option" where
  "reynoldsNumber velocity diameter_m visc = fdiv (BLOOD_DENSITY * velocity * diameter_m) visc"

record BloodProperties =
  viscosity :: real
  density :: real
  bp_reynoldsNumber :: real
  shearRate :: real

text \<open>
  The iteration of \<open>calculateBloodProperties\<close>: the state is the pair
  (viscosity, shearRate), and each round overwrites both.
\<close>

fun bloodPropertiesLoop :: "nat \<Rightarrow> real \<Rightarrow> real \<Rightarrow> real \<Rightarrow> real \<times> real \<Rightarrow> (real \<times> real) option" where
  "bloodPropertiesLoop 0 q r h st = Some st"
| "bloodPropertiesLoop (Suc k) q r h st =
     do {
       sr \<leftarrow> wallShearRate q r;
       let visc = carreauViscosity sr h;
       bloodPropertiesLoop k q r h (visc, sr)
     }"

definition calculateBloodProperties :: "real \<Rightarrow> real \<Rightarrow> real \<Rightarrow> BloodProperties option" where
  "calculateBloodProperties flowRate_mLmin diameter_mm h =
     (let flowRate_m3s = flowRate_mLmin / (10 ^ 6 * 60);
          radius_m = (diameter_mm / 2) * (1 / 10 ^ 3);
          diameter_m = diameter_mm * (1 / 10 ^ 3)
      in do {
        (visc, sr) \<leftarrow> bloodPropertiesLoop 5 flowRate_m3s radius_m h (CARREAU_mu_inf, 0);
        velocity \<leftarrow> meanVelocity flowRate_m3s radius_m;
        re \<leftarrow> reynoldsNumber velocity diameter_m visc;
        Some \<lparr>viscosity = visc, density = BLOOD_DENSITY, bp_reynoldsNumber = re, shearRate = sr\<rparr>
      })"

text \<open>
  The single pass the iteration is compared with: one evaluation of the wall shear rate,
  then one evaluation of the Carreau viscosity.
\<close>

definition calculateBloodProperties_singlePass :: "real \<Rightarrow> real \<Rightarrow> real \<Rightarrow> BloodProperties option" where
  "calculateBloodProperties_singlePass flowRate_mLmin diameter_mm h =
     (let flowRate_m3s = flowRate_mLmin / (10 ^ 6 * 60);
          radius_m = (diameter_mm / 2) * (1 / 10 ^ 3);
          diameter_m = diameter_mm * (1 / 10 ^ 3)
      in do {
        sr \<leftarrow> wallShearRate flowRate_m3s radius_m;
        let visc = carreauViscosity sr h;
        velocity \<leftarrow> meanVelocity flowRate_m3s radius_m;
        re \<leftarrow> reynoldsNumber velocity diameter_m visc;
        Some \<lparr>viscosity = visc, density = BLOOD_DENSITY, bp_reynoldsNumber = re, shearRate = sr\<rparr>
      })"

section \<open>Relative residence time (wss-calculator.ts)\<close>

definition calculateRRT :: "real \<Rightarrow> real \<Rightarrow> real" where
  "calculateRRT tawss_v osi_v =
     (let denominator = (1 - 2 * osi_v) * tawss_v
      in if denominator < 0.01 then 100 else 1 / denominator)"

section \<open>Types (types)\<close>

record SimulationParams =
  arteryDiameter :: real
  veinDiameter :: real
  anastomosisAngle :: real
  baseFlowRate :: real
  bloodFlowRate :: real
  hematocrit :: real
  heartRate :: real
  bloodPressure :: real
  systolicRatio :: real

text \<open>The default parameter set of \<open>constants.ts\<close>.\<close>

definition DEFAULT_PARAMS :: SimulationParams where
  "DEFAULT_PARAMS =
     \<lparr>arteryDiameter = 4.0, veinDiameter = 4.0, anastomosisAngle = 45,
      baseFlowRate = 600, bloodFlowRate = 600, hematocrit = 0.40, heartRate = 75,
      bloodPressure = 90, systolicRatio = 0.35\<rparr>"

record FlowSplit =
  veinFlowRate :: real
  distalFlowRate :: real
  veinFraction :: real

text \<open>The fields \<open>x\<close> and \<open>y\<close> of \<open>Point2D\<close> are named \<open>px\<close> and \<open>py\<close> here.\<close>

record Point2D =
  px :: real
  py :: real

datatype RegionType =
    proximal_artery
  | distal_artery
  | vein_outer
  | vein_inner
  | anastomosis_toe
  | anastomosis_heel
  | anastomosis_floor
  | anastomosis_outer

record WallPoint =
  point :: Point2D
  normal :: Point2D
  regionType :: RegionType
  paramPosition :: real

text \<open>
  The last three fields of \<open>VesselGeometry\<close> carry the prefix \<open>geo_\<close>: the source
  names them like the fields of \<open>SimulationParams\<close>.
\<close>

record VesselGeometry =
  arteryCenterline :: "Point2D list"
  veinCenterline :: "Point2D list"
  arteryUpperWall :: "Point2D list"
  arteryLowerWall :: "Point2D list"
  veinOuterWall :: "Point2D list"
  veinInnerWall :: "Point2D list"
  anastomosisPoint :: Point2D
  wallPoints :: "WallPoint list"
  recirculationZone :: "Point2D list"
  arteryLength :: real
  veinLength :: real
  geo_arteryDiameter :: real
  geo_veinDiameter :: real
  geo_anastomosisAngle :: real

record WSSData =
  tawss :: real
  osi :: real
  rrt :: real

section \<open>Flow solver (flow-solver.ts)\<close>

definition calculateFlowSplit :: "SimulationParams \<Rightarrow> FlowSplit option" where
  "calculateFlowSplit params =
     (let arteryRadius = arteryDiameter params / 2;
          veinRadius = veinDiameter params / 2;
          angleRad = (anastomosisAngle params * pi) / 180;
          veinLength_mm = 100;
          distalLength_mm = 80
      in do {
        R_vein \<leftarrow> fdiv veinLength_mm (veinRadius ^ 4);
        R_distal \<leftarrow> fdiv distalLength_mm ((arteryRadius * 0.8) ^ 4);
        let angleCorrection = 1 + 0.5 * (angleRad / (pi / 2)) ^ 2;
        let R_vein_effective = R_vein * angleCorrection;
        veinConductance \<leftarrow> fdiv 1 R_vein_effective;
        distalConductance \<leftarrow> fdiv 1 R_distal;
        let totalConductance = veinConductance + distalConductance;
        fraction \<leftarrow> fdiv veinConductance totalConductance;
        Some \<lparr>veinFlowRate = bloodFlowRate params * fraction,
              distalFlowRate = bloodFlowRate params * (1 - fraction),
              veinFraction = fraction\<rparr>
      })"

text \<open>
  One round of the loop of \<open>generatePulsatileWaveform\<close>, for the index \<open>i\<close>: the value
  pushed to the array.  Inside the loop \<open>i < numSteps\<close>, so the divisor of
  \<open>i / numSteps\<close> is positive.
\<close>

definition waveformSample :: "real \<Rightarrow> real \<Rightarrow> nat \<Rightarrow> nat \<Rightarrow> real option" where
  "waveformSample T sysRatio numSteps i =
     (let t = (real i / real numSteps) * T
      in do {
        phase \<leftarrow> fdiv (2 * pi * t) T;
        let A1 = 0.6 * (sysRatio / 0.35);
        let A2 = 0.25;
        let A3 = 0.1;
        let q = 1.0 + A1 * sin phase + A2 * sin (2 * phase - 0.3) + A3 * sin (3 * phase - 0.6);
        Some (max q 0.15)
      })"

text \<open>The step count is a natural number: the loop runs for \<open>i = 0, ..., numSteps - 1\<close>.\<close>

definition generatePulsatileWaveform :: "real \<Rightarrow> real \<Rightarrow> nat \<Rightarrow> real list option" where
  "generatePulsatileWaveform hRate sysRatio numSteps =
     do {
       T \<leftarrow> fdiv 60 hRate;
       waveform \<leftarrow> traverse (waveformSample T sysRatio numSteps) [0..<numSteps];
       total \<leftarrow> reduce_noinit (+) waveform;
       mean \<leftarrow> fdiv total (real (length waveform));
       traverse (\<lambda>q. fdiv q mean) waveform
     }"

section \<open>Geometry (geometry.ts)\<close>

definition cubicBezier :: "real \<Rightarrow> Point2D \<Rightarrow> Point2D \<Rightarrow> Point2D \<Rightarrow> Point2D \<Rightarrow> Point2D" where
  "cubicBezier t p0 p1 p2 p3 =
     (let mt = 1 - t; mt2 = mt * mt; mt3 = mt2 * mt; t2 = t * t; t3 = t2 * t
      in \<lparr>px = mt3 * px p0 + 3 * mt2 * t * px p1 + 3 * mt * t2 * px p2 + t3 * px p3,
          py = mt3 * py p0 + 3 * mt2 * t * py p1 + 3 * mt * t2 * py p2 + t3 * py p3\<rparr>)"

definition cubicBezierTangent :: "real \<Rightarrow> Point2D \<Rightarrow> Point2D \<Rightarrow> Point2D \<Rightarrow> Point2D \<Rightarrow> Point2D option" where
  "cubicBezierTangent t p0 p1 p2 p3 =
     (let mt = 1 - t; mt2 = mt * mt; t2 = t * t;
          dx = 3 * mt2 * (px p1 - px p0) + 6 * mt * t * (px p2 - px p1) + 3 * t2 * (px p3 - px p2);
          dy = 3 * mt2 * (py p1 - py p0) + 6 * mt * t * (py p2 - py p1) + 3 * t2 * (py p3 - py p2);
          len = sqrt (dx ^ 2 + dy ^ 2)
      in do {
        tx \<leftarrow> fdiv dx len;
        ty \<leftarrow> fdiv dy len;
        Some \<lparr>px = tx, py = ty\<rparr>
      })"

text \<open>
  \<open>veinWall[Math.min(5, veinWall.length - 1)]\<close> is \<open>undefined\<close> on an empty wall, and
  reading its \<open>x\<close> throws.
\<close>

definition generateSmoothConnection ::
    "Point2D list \<Rightarrow> Point2D list \<Rightarrow> real \<Rightarrow> real \<Rightarrow> nat \<Rightarrow> Point2D list option" where
  "generateSmoothConnection arteryWall veinWall cx toeY numPts =
     do {
       let arteryPt = \<lparr>px = cx + 5, py = toeY\<rparr>;
       veinPt \<leftarrow> nth_opt veinWall (min 5 (length veinWall - 1));
       let cp1 = \<lparr>px = px arteryPt + 20, py = py arteryPt\<rparr>;
       let cp2 = \<lparr>px = px veinPt + 10, py = py veinPt + 10\<rparr>;
       traverse (\<lambda>i. do {
           t \<leftarrow> fdiv (real i) (real numPts);
           Some (cubicBezier t arteryPt cp1 cp2 veinPt)
         }) [0..<numPts + 1]
     }"

definition modifyArteryWallForAnastomosis ::
    "Point2D list \<Rightarrow> real \<Rightarrow> real \<Rightarrow> real \<Rightarrow> real \<Rightarrow> Point2D list option" where
  "modifyArteryWallForAnastomosis upperWall cx veinRadius angleRad arteryRadius =
     do {
       openingWidth \<leftarrow> fdiv (veinRadius * 2) (sin angleRad);
       let halfOpening = openingWidth / 2;
       let heelX = cx - halfOpening * 0.8;
       let toeX = cx + halfOpening * 0.8;
       Some (map (\<lambda>p. if px p > heelX \<and> px p < toeX
                        then \<lparr>px = px p, py = py p + arteryRadius * 0.8\<rparr>
                        else p) upperWall)
     }"

definition estimateRecirculationZone ::
    "real \<Rightarrow> real \<Rightarrow> real \<Rightarrow> real \<Rightarrow> real \<Rightarrow> real \<Rightarrow> Point2D list" where
  "estimateRecirculationZone cx cy arteryRadius veinRadius angleRad scale =
     (let zoneLengthFactor = 1.0 + 1.5 * sin angleRad;
          zoneLength = veinRadius * 2 * zoneLengthFactor;
          zoneWidth = arteryRadius * 0.5;
          numPts = 16
      in map (\<lambda>i.
            let t = real i / real numPts; angle = t * pi
            in \<lparr>px = cx + zoneLength * 0.4 + zoneLength * 0.6 * cos angle,
                py = cy + arteryRadius * 0.4 - zoneWidth * sin angle * (1 - 0.2 * t)\<rparr>)
          [0..<numPts + 1])"

text \<open>
  The five \<open>forEach\<close> loops of \<open>generateWallPoints\<close>.  Each round computes
  \<open>t = i / (length - 1)\<close> first and then pushes a wall point or returns without one:
  the body's value is \<open>Some (Some w)\<close>, \<open>Some None\<close>, or \<open>None\<close> when \<open>t\<close> is not
  finite.  \<open>pushed\<close> collects the points that were pushed, in order.
\<close>

definition pushed :: "'a option list \<Rightarrow> 'a list" where
  "pushed rs = concat (map (\<lambda>r. case r of None \<Rightarrow> [] | Some w \<Rightarrow> [w]) rs)"

definition arteryUpperPoint ::
    "Point2D list \<Rightarrow> real \<Rightarrow> real \<Rightarrow> real \<Rightarrow> nat \<times> Point2D \<Rightarrow> WallPoint option option" where
  "arteryUpperPoint arteryUpper cx cy arteryRadius ip =
     (case ip of (i, p) \<Rightarrow>
      do {
        t \<leftarrow> fdiv (real i) (real (length arteryUpper) - 1);
        let dx = px p - cx;
        let region =
          (if dx > arteryRadius then distal_artery
           else if \<bar>dx\<bar> < arteryRadius then
             (if dx < 0 then anastomosis_heel else anastomosis_toe)
           else proximal_artery);
        Some (if py p > cy - arteryRadius + 5 then None
              else Some \<lparr>point = p, normal = \<lparr>px = 0, py = -1\<rparr>,
                         regionType = region, paramPosition = t\<rparr>)
      })"

definition toePoint :: "Point2D list \<Rightarrow> nat \<times> Point2D \<Rightarrow> WallPoint option option" where
  "toePoint toeConnection ip =
     (case ip of (i, p) \<Rightarrow>
      do {
        t \<leftarrow> fdiv (real i) (real (length toeConnection) - 1);
        Some (Some \<lparr>point = p, normal = \<lparr>px = cos (pi / 4), py = - sin (pi / 4)\<rparr>,
                    regionType = anastomosis_toe, paramPosition = t\<rparr>)
      })"

definition arteryLowerPoint ::
    "Point2D list \<Rightarrow> real \<Rightarrow> real \<Rightarrow> nat \<times> Point2D \<Rightarrow> WallPoint option option" where
  "arteryLowerPoint arteryLower cx arteryRadius ip =
     (case ip of (i, p) \<Rightarrow>
      do {
        t \<leftarrow> fdiv (real i) (real (length arteryLower) - 1);
        let dx = px p - cx;
        let region =
          (if dx > arteryRadius * 0.5 then distal_artery
           else if \<bar>dx\<bar> < arteryRadius * 1.5 then anastomosis_floor
           else proximal_artery);
        Some (Some \<lparr>point = p, normal = \<lparr>px = 0, py = 1\<rparr>,
                    regionType = region, paramPosition = t\<rparr>)
      })"

definition veinOuterPoint ::
    "Point2D list \<Rightarrow> Point2D list \<Rightarrow> nat \<times> Point2D \<Rightarrow> WallPoint option option" where
  "veinOuterPoint veinOuter veinNormals ip =
     (case ip of (i, p) \<Rightarrow>
      do {
        t \<leftarrow> fdiv (real i) (real (length veinOuter) - 1);
        if i < 3 then Some None
        else do {
          n \<leftarrow> nth_opt veinNormals i;
          Some (Some \<lparr>point = p, normal = n,
                      regionType = (if t < 0.2 then anastomosis_outer else vein_outer),
                      paramPosition = t\<rparr>)
        }
      })"

definition veinInnerPoint ::
    "Point2D list \<Rightarrow> Point2D list \<Rightarrow> nat \<times> Point2D \<Rightarrow> WallPoint option option" where
  "veinInnerPoint veinInner veinNormals ip =
     (case ip of (i, p) \<Rightarrow>
      do {
        t \<leftarrow> fdiv (real i) (real (length veinInner) - 1);
        if i < 3 then Some None
        else do {
          n \<leftarrow> nth_opt veinNormals i;
          Some (Some \<lparr>point = p, normal = \<lparr>px = - px n, py = - py n\<rparr>,
                      regionType = (if t < 0.2 then anastomosis_floor else vein_inner),
                      paramPosition = t\<rparr>)
        }
      })"

definition generateWallPoints ::
    "Point2D list \<Rightarrow> Point2D list \<Rightarrow> Point2D list \<Rightarrow> Point2D list \<Rightarrow> Point2D list \<Rightarrow>
     Point2D list \<Rightarrow> real \<Rightarrow> real \<Rightarrow> real \<Rightarrow> real \<Rightarrow> WallPoint list option" where
  "generateWallPoints arteryUpper arteryLower veinOuter veinInner veinNormals toeConnection
       cx cy arteryRadius angleRad =
     do {
       upper \<leftarrow> traverse (arteryUpperPoint arteryUpper cx cy arteryRadius) (enumerate 0 arteryUpper);
       toe \<leftarrow> traverse (toePoint toeConnection) (enumerate 0 toeConnection);
       lower \<leftarrow> traverse (arteryLowerPoint arteryLower cx arteryRadius) (enumerate 0 arteryLower);
       outer \<leftarrow> traverse (veinOuterPoint veinOuter veinNormals) (enumerate 0 veinOuter);
       inner \<leftarrow> traverse (veinInnerPoint veinInner veinNormals) (enumerate 0 veinInner);
       Some (pushed upper @ pushed toe @ pushed lower @ pushed outer @ pushed inner)
     }"

text \<open>
  One round of the loop over the vein samples in \<open>generateGeometry\<close>: the centreline
  point and the normal pushed for the index \<open>i\<close>.  The sample count is the constant 50,
  so the divisor of \<open>t\<close> is 49.  The two wall contours of the vein are mapped over the
  samples, each centreline point with the normal of the same index.
\<close>

definition veinSample ::
    "nat \<Rightarrow> Point2D \<Rightarrow> Point2D \<Rightarrow> Point2D \<Rightarrow> Point2D \<Rightarrow> nat \<Rightarrow> (Point2D \<times> Point2D) option" where
  "veinSample numVeinPts p0 p1 p2 p3 i =
     (let t = real i / (real numVeinPts - 1);
          p = cubicBezier t p0 p1 p2 p3
      in do {
        tangent \<leftarrow> cubicBezierTangent t p0 p1 p2 p3;
        Some (p, \<lparr>px = - py tangent, py = px tangent\<rparr>)
      })"

definition generateGeometry :: "real \<Rightarrow> real \<Rightarrow> real \<Rightarrow> VesselGeometry option" where
  "generateGeometry arteryDia veinDia angle =
     (let scale = CANVAS_vesselScale;
          cx = CANVAS_width / 2;
          cy = CANVAS_height * 0.65;
          arteryRadius = (arteryDia / 2) * scale;
          veinRadius = (veinDia / 2) * scale;
          angleRad = (angle * pi) / 180;
          anastomosisPt = \<lparr>px = cx, py = cy\<rparr>;
          arteryLen = CANVAS_width * 0.8;
          numArteryPts = 60;
          arteryCl = map (\<lambda>i. let t = real i / (real numArteryPts - 1)
                               in \<lparr>px = cx - arteryLen / 2 + t * arteryLen, py = cy\<rparr>)
                         [0..<numArteryPts];
          veinCurveLength = 350;
          p0 = \<lparr>px = cx, py = cy\<rparr>;
          p1 = \<lparr>px = cx + cos (pi - angleRad) * veinCurveLength * 0.4,
                py = cy - sin angleRad * veinCurveLength * 0.4\<rparr>;
          p3 = \<lparr>px = cx - veinCurveLength * 0.8, py = cy - veinCurveLength * 0.8\<rparr>;
          p2 = \<lparr>px = px p3 + veinCurveLength * 0.4, py = py p3\<rparr>;
          numVeinPts = 50
      in do {
        samples \<leftarrow> traverse (veinSample numVeinPts p0 p1 p2 p3) [0..<numVeinPts];
        let veinCl = map fst samples;
        let veinNormals = map snd samples;
        let arteryUpper = map (\<lambda>p. \<lparr>px = px p, py = py p - arteryRadius\<rparr>) arteryCl;
        let arteryLower = map (\<lambda>p. \<lparr>px = px p, py = py p + arteryRadius\<rparr>) arteryCl;
        let veinOuter = map (\<lambda>(p, n). \<lparr>px = px p + veinRadius * px n,
                                          py = py p + veinRadius * py n\<rparr>) samples;
        let veinInner = map (\<lambda>(p, n). \<lparr>px = px p - veinRadius * px n,
                                          py = py p - veinRadius * py n\<rparr>) samples;
        toeConnection \<leftarrow> generateSmoothConnection arteryUpper veinOuter cx (cy - arteryRadius) 15;
        modifiedArteryUpper \<leftarrow>
          modifyArteryWallForAnastomosis arteryUpper cx veinRadius angleRad arteryRadius;
        let zone = estimateRecirculationZone cx cy arteryRadius veinRadius angleRad scale;
        wps \<leftarrow> generateWallPoints modifiedArteryUpper arteryLower veinOuter veinInner
                 veinNormals toeConnection cx cy arteryRadius angleRad;
        Some \<lparr>arteryCenterline = arteryCl,
              veinCenterline = veinCl,
              arteryUpperWall = modifiedArteryUpper,
              arteryLowerWall = arteryLower,
              veinOuterWall = veinOuter,
              veinInnerWall = veinInner,
              anastomosisPoint = anastomosisPt,
              wallPoints = wps,
              recirculationZone = zone,
              arteryLength = arteryLen,
              veinLength = veinCurveLength,
              geo_arteryDiameter = arteryDia,
              geo_veinDiameter = veinDia,
              geo_anastomosisAngle = angle\<rparr>
      })"

section \<open>Wall shear stress, OSI and the orchestration (wss-calculator.ts)\<close>

definition getRegionCorrectionFactor :: "RegionType \<Rightarrow> real \<Rightarrow> real \<Rightarrow> real option" where
  "getRegionCorrectionFactor region angleRad diameterRatio =
     (case region of
        proximal_artery \<Rightarrow> Some 1.0
      | distal_artery \<Rightarrow> Some 0.85
      | anastomosis_outer \<Rightarrow>
          do { r \<leftarrow> fsqrt diameterRatio; Some (1.0 + 2.0 * sin angleRad * r) }
      | anastomosis_toe \<Rightarrow> Some (1.0 + 1.5 * cos (angleRad / 2))
      | anastomosis_heel \<Rightarrow> Some (1.0 + 0.5 * sin angleRad)
      | anastomosis_floor \<Rightarrow>
          do {
            d \<leftarrow> fpow diameterRatio 0.3;
            fdiv (0.15 * (1 - 0.5 * sin (angleRad / 2))) d
          }
      | vein_outer \<Rightarrow> Some (1.1 + 0.3 * sin angleRad)
      | vein_inner \<Rightarrow> Some 0.7)"

text \<open>
  One round of the \<open>forEach\<close> of \<open>calculateOSI\<close>: the accumulators
  \<open>(sumAbs, sumSigned)\<close> after the sample \<open>wss\<close> at index \<open>i\<close>.  The loop runs on a
  non-empty array only, so the divisor \<open>n\<close> (its length) is positive.
\<close>

definition osiStep :: "nat \<Rightarrow> real \<Rightarrow> real \<times> real \<Rightarrow> nat \<times> real \<Rightarrow> real \<times> real" where
  "osiStep n reversalFraction acc iw =
     (case acc of (sumAbs, sumSigned) \<Rightarrow>
      case iw of (i, wss) \<Rightarrow>
        let phase = (real i / real n) * 2 * pi;
            directionFactor = (if sin phase > 0.3 then 1 else - reversalFraction)
        in (sumAbs + \<bar>wss\<bar>, sumSigned + wss * directionFactor))"

definition calculateOSI :: "real list \<Rightarrow> RegionType \<Rightarrow> real \<Rightarrow> real option" where
  "calculateOSI wssTimeSeries region angleRad =
     (let isRecirculation =
            (region = anastomosis_floor \<or> (region = vein_inner \<and> angleRad > pi / 6))
      in if \<not> isRecirculation then
           do {
             total \<leftarrow> reduce_noinit (+) wssTimeSeries;
             mean \<leftarrow> fdiv total (real (length wssTimeSeries));
             variance \<leftarrow> fdiv (foldl (\<lambda>a b. a + (b - mean) ^ 2) 0 wssTimeSeries)
                              (real (length wssTimeSeries));
             cv \<leftarrow> fdiv (sqrt variance) (mean + 1 / 10 ^ 10);
             Some (min (0.05 + cv * 0.1) 0.15)
           }
         else
           (let reversalFraction = 0.3 + 0.4 * sin angleRad;
                totals = foldl (osiStep (length wssTimeSeries) reversalFraction) (0, 0)
                         (enumerate 0 wssTimeSeries)
            in do {
              ratio \<leftarrow> fdiv \<bar>snd totals\<bar> (fst totals + 1 / 10 ^ 10);
              let osi_v = 0.5 * (1 - ratio);
              Some (min (max osi_v 0) 0.5)
            }))"

text \<open>
  The function mapped over the wall points in step 6 of \<open>calculateHemodynamics\<close>.
  \<open>regionType.startsWith('vein')\<close> holds for the two vein regions.
\<close>

definition wallPointWSS ::
    "real \<Rightarrow> real \<Rightarrow> real \<Rightarrow> real \<Rightarrow> real list \<Rightarrow> WallPoint \<Rightarrow> (WallPoint \<times> WSSData) option" where
  "wallPointWSS baseWSS_artery baseWSS_vein angleRad diameterRatio waveform wp =
     (let isVein = (regionType wp = vein_outer \<or> regionType wp = vein_inner);
          baseWSS = (if isVein then baseWSS_vein else baseWSS_artery)
      in do {
        correction \<leftarrow> getRegionCorrectionFactor (regionType wp) angleRad diameterRatio;
        let spatialVariation = 1 + 0.1 * sin (paramPosition wp * pi * 4);
        let wssTimeSeries = map (\<lambda>w. baseWSS * correction * spatialVariation * w) waveform;
        tawss_v \<leftarrow> fdiv (foldl (\<lambda>a b. a + \<bar>b\<bar>) 0 wssTimeSeries) (real (length wssTimeSeries));
        osi_v \<leftarrow> calculateOSI wssTimeSeries (regionType wp) angleRad;
        let rrt_v = calculateRRT tawss_v osi_v;
        Some (wp, \<lparr>tawss = tawss_v, osi = osi_v, rrt = rrt_v\<rparr>)
      })"

text \<open>
  Steps 1 to 6 of \<open>calculateHemodynamics\<close>: the geometry, the blood properties, the flow
  split, the waveform, the two baseline stresses and the per-point data.  The velocity
  field and the aggregate metrics (steps 7 and 8) are computed from these afterwards and
  are not modelled; the result record keeps the fields \<open>wallWSS\<close> and \<open>flowSplit\<close>.
\<close>

record HemodynamicResult =
  wallWSS :: "(WallPoint \<times> WSSData) list"
  flowSplit :: FlowSplit

definition calculateHemodynamics :: "SimulationParams \<Rightarrow> HemodynamicResult option" where
  "calculateHemodynamics params =
     do {
       geometry \<leftarrow> generateGeometry (arteryDiameter params) (veinDiameter params)
                     (anastomosisAngle params);
       bloodProps \<leftarrow> calculateBloodProperties (bloodFlowRate params) (arteryDiameter params)
                       (hematocrit params);
       split \<leftarrow> calculateFlowSplit params;
       waveform \<leftarrow> generatePulsatileWaveform (heartRate params) (systolicRatio params) 20;
       let angleRad = (anastomosisAngle params * pi) / 180;
       diameterRatio \<leftarrow> fdiv (veinDiameter params) (arteryDiameter params);
       let arteryFlow_m3s = bloodFlowRate params / (10 ^ 6 * 60);
       let arteryRadius_m = (arteryDiameter params / 2) * (1 / 10 ^ 3);
       arteryShearRate \<leftarrow> wallShearRate arteryFlow_m3s arteryRadius_m;
       let arteryViscosity = carreauViscosity arteryShearRate (hematocrit params);
       let baseWSS_artery = arteryViscosity * arteryShearRate;
       let veinFlow_m3s = veinFlowRate split / (10 ^ 6 * 60);
       let veinRadius_m = (veinDiameter params / 2) * (1 / 10 ^ 3);
       veinShearRate \<leftarrow> wallShearRate veinFlow_m3s veinRadius_m;
       let veinViscosity = carreauViscosity veinShearRate (hematocrit params);
       let baseWSS_vein = veinViscosity * veinShearRate;
       wss \<leftarrow> traverse (wallPointWSS baseWSS_artery baseWSS_vein angleRad diameterRatio waveform)
                 (wallPoints geometry);
       Some \<lparr>wallWSS = wss, flowSplit = split\<rparr>
     }"

section \<open>The flow split in double precision\<close>

text \<open>
  Where a property depends on the rounding of the arithmetic, the flow split is modelled
  a second time with every operation of the source rounded as IEEE binary64 rounds it:
  to the nearest number with a significand of 53 bits, ties to the even significand.
  \<open>fl\<close> is that rounding.  The range of the exponent is not bounded, so overflow and
  subnormal numbers are not part of the model; for the parameters the simulator documents
  the values stay far inside the normal range.
\<close>

definition round_even :: "real \<Rightarrow> int" where
  "round_even r =
     (let f = \<lfloor>r\<rfloor>; d = r - of_int f
      in if d < 1 / 2 then f else if 1 / 2 < d then f + 1 else if even f then f else f + 1)"

definition fl :: "real \<Rightarrow> real" where
  "fl x = (if x = 0 then 0
           else let u = 2 powr (of_int (\<lfloor>log 2 \<bar>x\<bar>\<rfloor> - 52))
                in of_int (round_even (x / u)) * u)"

text \<open>
  \<open>Math.PI\<close> is the double nearest to pi.  A division rounds its quotient; on a zero
  divisor the source has \<open>Infinity\<close> or \<open>NaN\<close>, and the model \<open>None\<close>.
\<close>

definition MATH_PI :: real where "MATH_PI = 884279719003555 / 2 ^ 48"

definition fdivd :: "real \<Rightarrow> real \<Rightarrow> real option" where
  "fdivd a b = (if b = 0 then None else Some (fl (a / b)))"

text \<open>
  \<open>calculateFlowSplit\<close> with each operation rounded, in the order the source evaluates
  them.  The parameters are taken as the doubles they are; the literals 100, 80, 180, 2, 1
  and 0.5 are doubles, 0.8 is rounded to one, and \<open>Math.pow\<close> is taken as correctly
  rounded.
\<close>

definition calculateFlowSplit_double :: "SimulationParams \<Rightarrow> FlowSplit option" where
  "calculateFlowSplit_double params =
     (let arteryRadius = fl (arteryDiameter params / 2);
          veinRadius = fl (veinDiameter params / 2);
          angleRad = fl (fl (anastomosisAngle params * MATH_PI) / 180);
          veinLength_mm = 100;
          distalLength_mm = 80
      in do {
        R_vein \<leftarrow> fdivd veinLength_mm (fl (veinRadius ^ 4));
        R_distal \<leftarrow> fdivd distalLength_mm (fl (fl (arteryRadius * fl 0.8) ^ 4));
        let angleCorrection = fl (1 + fl (0.5 * fl (fl (angleRad / fl (MATH_PI / 2)) ^ 2)));
        let R_vein_effective = fl (R_vein * angleCorrection);
        veinConductance \<leftarrow> fdivd 1 R_vein_effective;
        distalConductance \<leftarrow> fdivd 1 R_distal;
        let totalConductance = fl (veinConductance + distalConductance);
        fraction \<leftarrow> fdivd veinConductance totalConductance;
        Some \<lparr>veinFlowRate = fl (bloodFlowRate params * fraction),
              distalFlowRate = fl (bloodFlowRate params * fl (1 - fraction)),
              veinFraction = fraction\<rparr>
      })"

text \<open>
  \<open>near k a b\<close>: the computed value \<open>a\<close> is the exact positive value \<open>b\<close> up to \<open>k\<close>
  roundings, each a factor between \<open>1 - 2^-53\<close> and its inverse.  It is used to follow the
  rounding errors through the flow split.
\<close>

definition near :: "nat \<Rightarrow> real \<Rightarrow> real \<Rightarrow> bool" where
  "near k a b \<longleftrightarrow> 0 < b \<and> b * (1 - 1 / 2 ^ 53) ^ k \<le> a \<and> a * (1 - 1 / 2 ^ 53) ^ k \<le> b"

section \<open>Basic facts about the partial operations\<close>

lemma fdiv_Some: "b \<noteq> 0 \<Longrightarrow> fdiv a b = Some (a / b)"
  by (simp add: fdiv_def)

lemma traverse_Some:
  "(\<And>a. a \<in> set as \<Longrightarrow> f a = Some (g a)) \<Longrightarrow> traverse f as = Some (map g as)"
  by (induction as) simp_all

lemma traverse_range:
  assumes "\<And>a. a \<in> set as \<Longrightarrow> \<exists>b. f a = Some b \<and> P b"
  shows "\<exists>bs. traverse f as = Some bs \<and> length bs = length as \<and> (\<forall>b\<in>set bs. P b)"
  using assms
proof (induction as)
  case Nil
  then show ?case by simp
next
  case (Cons a as)
  obtain b where b: "f a = Some b" "P b" using Cons.prems[of a] by auto
  obtain bs where bs: "traverse f as = Some bs" "length bs = length as" "\<forall>b\<in>set bs. P b"
    using Cons.IH Cons.prems by auto
  show ?case using b bs by simp
qed

lemma bind_exI:
  assumes "\<exists>a. m = Some a \<and> R a" "\<And>a. R a \<Longrightarrow> \<exists>g. f a = Some g \<and> Q g"
  shows "\<exists>g. Option.bind m f = Some g \<and> Q g"
  using assms by auto

lemma fdiv_pos: "0 < a \<Longrightarrow> 0 < b \<Longrightarrow> \<exists>r. fdiv a b = Some r \<and> 0 < r"
  by (simp add: fdiv_def)

lemma foldl_add_sum_list: "foldl (+) (a::real) as = a + sum_list as"
  by (induction as arbitrary: a) (simp_all add: add.assoc)

lemma reduce_noinit_add: "xs \<noteq> [] \<Longrightarrow> reduce_noinit (+) (xs::real list) = Some (sum_list xs)"
  by (cases xs) (simp_all add: reduce_noinit_def foldl_add_sum_list)

lemma sum_list_map_divide: "sum_list (map (\<lambda>q. q / m) w) = sum_list w / (m::real)"
  by (induction w) (simp_all add: add_divide_distrib)

lemma sum_list_lower:
  assumes "xs \<noteq> []" "\<forall>x\<in>set xs. lo \<le> (x::real)"
  shows "lo \<le> sum_list xs / real (length xs)"
proof -
  have n: "0 < real (length xs)" using assms(1) by simp
  have "sum_list (map (\<lambda>x. lo) xs) \<le> sum_list (map (\<lambda>x. x) xs)"
    using assms(2) by (intro sum_list_mono) simp
  then have "real (length xs) * lo \<le> sum_list xs"
    by (simp add: sum_list_replicate map_replicate_const)
  then show ?thesis using n by (simp add: field_simps)
qed

lemma sum_list_upper:
  assumes "xs \<noteq> []" "\<forall>x\<in>set xs. x \<le> (hi::real)"
  shows "sum_list xs / real (length xs) \<le> hi"
proof -
  have n: "0 < real (length xs)" using assms(1) by simp
  have "sum_list (map (\<lambda>x. x) xs) \<le> sum_list (map (\<lambda>x. hi) xs)"
    using assms(2) by (intro sum_list_mono) simp
  then have "sum_list xs \<le> real (length xs) * hi"
    by (simp add: sum_list_replicate map_replicate_const)
  then show ?thesis using n by (simp add: field_simps)
qed

section \<open>Blood properties\<close>

text \<open>
  On a hematocrit given in percent, \<open>interpolateHctParams\<close> clamps below 20 and above 55
  and interpolates linearly inside each bracket of the table.
\<close>

lemma interpolateHctParams_below:
  "h \<le> 20 \<Longrightarrow> interpolateHctParams h = \<lparr>mu_inf = 0.0022, mu_0 = 0.025\<rparr>"
  by (simp add: interpolateHctParams_def HCT_VISCOSITY_TABLE_def)

lemma interpolateHctParams_above:
  "55 \<le> h \<Longrightarrow> interpolateHctParams h = \<lparr>mu_inf = 0.0045, mu_0 = 0.075\<rparr>"
  by (simp add: interpolateHctParams_def HCT_VISCOSITY_TABLE_def)

lemma interpolateHctParams_bracket:
  assumes "i < 7"
    and "hct (HCT_VISCOSITY_TABLE ! i) < h" and "h \<le> hct (HCT_VISCOSITY_TABLE ! Suc i)"
  shows "interpolateHctParams h =
           (let a = HCT_VISCOSITY_TABLE ! i; b = HCT_VISCOSITY_TABLE ! Suc i;
                frac = (h - hct a) / (hct b - hct a)
            in \<lparr>mu_inf = mu_inf a + frac * (mu_inf b - mu_inf a),
                mu_0 = mu_0 a + frac * (mu_0 b - mu_0 a)\<rparr>)"
proof -
  have "i = 0 \<or> i = 1 \<or> i = 2 \<or> i = 3 \<or> i = 4 \<or> i = 5 \<or> i = 6"
    using assms(1) by linarith
  then show ?thesis
    using assms(2,3)
    by (elim disjE) (simp_all add: interpolateHctParams_def HCT_VISCOSITY_TABLE_def Let_def)
qed

lemma interpolateHctParams_ordered:
  "mu_inf (interpolateHctParams h) \<le> mu_0 (interpolateHctParams h)"
  unfolding interpolateHctParams_def HCT_VISCOSITY_TABLE_def
  by (simp add: Let_def field_simps)

lemma interpolateHctParams_mu_inf_pos: "0 < mu_inf (interpolateHctParams h)"
  unfolding interpolateHctParams_def HCT_VISCOSITY_TABLE_def
  by (simp add: Let_def field_simps CARREAU_mu_inf_def)

lemma powr_le_one: "1 \<le> (x::real) \<Longrightarrow> a \<le> 0 \<Longrightarrow> x powr a \<le> 1"
  using powr_mono[of a 0 x] by simp

lemma carreauViscosity_bounds:
  "mu_inf (interpolateHctParams h) \<le> carreauViscosity g h"
  "carreauViscosity g h \<le> mu_0 (interpolateHctParams h)"
proof -
  let ?p = "interpolateHctParams h"
  let ?t = "1 + (CARREAU_lambda * max g 0.1) ^ 2"
  let ?e = "(CARREAU_n - 1) / 2"
  have t1: "1 \<le> ?t" by simp
  have e0: "?e \<le> 0" by (simp add: CARREAU_n_def)
  have le1: "?t powr ?e \<le> 1" using powr_le_one[OF t1 e0] .
  have ge0: "0 \<le> ?t powr ?e" by simp
  have ord: "0 \<le> mu_0 ?p - mu_inf ?p" using interpolateHctParams_ordered[of h] by simp
  have a: "0 \<le> (mu_0 ?p - mu_inf ?p) * (?t powr ?e)"
    using ord ge0 by (rule mult_nonneg_nonneg)
  have b: "(mu_0 ?p - mu_inf ?p) * (?t powr ?e) \<le> (mu_0 ?p - mu_inf ?p) * 1"
    using ord le1 by (rule mult_left_mono[rotated])
  show "mu_inf ?p \<le> carreauViscosity g h"
    unfolding carreauViscosity_def Let_def using a by simp
  show "carreauViscosity g h \<le> mu_0 ?p"
    unfolding carreauViscosity_def Let_def using b by simp
qed

lemma carreauViscosity_pos: "0 < carreauViscosity g h"
  using carreauViscosity_bounds(1)[where h = h and g = g] interpolateHctParams_mu_inf_pos[of h]
  by linarith

lemma bloodPropertiesLoop_Suc:
  "bloodPropertiesLoop (Suc k) q r h st =
     (case wallShearRate q r of None \<Rightarrow> None | Some sr \<Rightarrow> Some (carreauViscosity sr h, sr))"
  by (induction k arbitrary: st) (simp_all split: option.splits)

lemma bloodPropertiesLoop_5:
  "bloodPropertiesLoop 5 q r h st =
     (case wallShearRate q r of None \<Rightarrow> None | Some sr \<Rightarrow> Some (carreauViscosity sr h, sr))"
proof -
  have "(5::nat) = Suc 4" by simp
  then show ?thesis by (simp only: bloodPropertiesLoop_Suc)
qed

lemma wallShearRate_Some:
  assumes "r \<noteq> 0"
  shows "wallShearRate q r = Some ((3 * CARREAU_n + 1) / (4 * CARREAU_n) * (4 * q / (pi * r ^ 3)))"
proof -
  have d: "pi * r ^ 3 \<noteq> 0" using assms by simp
  show ?thesis unfolding wallShearRate_def Let_def fdiv_Some[OF d] by (simp only: Option.bind.simps)
qed

lemma wallShearRate_ok:
  assumes "0 \<le> q" "0 < r"
  shows "\<exists>s. wallShearRate q r = Some s \<and> 0 \<le> s"
proof -
  have r: "r \<noteq> 0" using assms(2) by simp
  have "0 \<le> 4 * q / (pi * r ^ 3)" using assms by (intro divide_nonneg_nonneg) simp_all
  then have "0 \<le> (3 * CARREAU_n + 1) / (4 * CARREAU_n) * (4 * q / (pi * r ^ 3))"
    by (intro mult_nonneg_nonneg) (simp_all add: CARREAU_n_def)
  then show ?thesis unfolding wallShearRate_Some[OF r] by blast
qed

lemma calculateBloodProperties_ok:
  assumes "0 < d"
  shows "\<exists>bp. calculateBloodProperties q d h = Some bp \<and> True"
proof -
  have r: "d / 2 * (1 / 10 ^ 3) \<noteq> 0" using assms by simp
  have r2: "pi * (d / 2 * (1 / 10 ^ 3)) * (d / 2 * (1 / 10 ^ 3)) \<noteq> 0" using assms by simp
  have v: "carreauViscosity s h \<noteq> 0" for s using carreauViscosity_pos[of s h] by linarith
  show ?thesis
    unfolding calculateBloodProperties_def Let_def
    by (simp only: bloodPropertiesLoop_5 wallShearRate_Some[OF r]
        meanVelocity_def reynoldsNumber_def fdiv_Some[OF r2] fdiv_Some[OF v]
        Option.bind.simps option.case prod.case) blast
qed

text \<open>
  C3.  The Carreau parameters are to be interpolated over the hematocrit table when the
  supplied hematocrit lies in the table's range, the hematocrit being supplied as a ratio
  (0.40 for 40 percent).  The code compares the ratio with the table's keys, which are
  percentages: at the ratio 0.40 it returns the values of the first row (20 percent),
  where interpolation at 40 percent gives the values of the row for 40; the blood
  properties at the ratio 0.40 are those at 20 percent.
\<close>

theorem interpolateHctParams_ratio_takes_first_row:
  "interpolateHctParams (40 / 100) = \<lparr>mu_inf = 0.0022, mu_0 = 0.025\<rparr> \<and>
   interpolateHctParams 40 = \<lparr>mu_inf = 0.0032, mu_0 = 0.048\<rparr> \<and>
   calculateBloodProperties 600 4 (40 / 100) \<noteq> None \<and>
   calculateBloodProperties 600 4 (40 / 100) = calculateBloodProperties 600 4 20"
proof -
  have a: "interpolateHctParams (40 / 100) = \<lparr>mu_inf = 0.0022, mu_0 = 0.025\<rparr>"
    by (rule interpolateHctParams_below) simp
  have b: "interpolateHctParams 40 = \<lparr>mu_inf = 0.0032, mu_0 = 0.048\<rparr>"
    by (simp add: interpolateHctParams_def HCT_VISCOSITY_TABLE_def)
  have c: "interpolateHctParams 20 = \<lparr>mu_inf = 0.0022, mu_0 = 0.025\<rparr>"
    by (rule interpolateHctParams_below) simp
  have "carreauViscosity g (40 / 100) = carreauViscosity g 20" for g
    unfolding carreauViscosity_def a c ..
  then have d: "calculateBloodProperties 600 4 (40 / 100) = calculateBloodProperties 600 4 20"
    unfolding calculateBloodProperties_def
    by (simp only: eval_nat_numeral bloodPropertiesLoop_Suc)
  have e: "calculateBloodProperties 600 4 (40 / 100) \<noteq> None"
    using calculateBloodProperties_ok[of 4 600 "40 / 100"] by auto
  from a b d e show ?thesis by simp
qed

text \<open>
  C8.  For every shear rate and every hematocrit, the viscosity of the Carreau model lies
  between the parameters mu_inf and mu_0 interpolated for that hematocrit: never below
  mu_inf and at most mu_0.
\<close>

theorem carreauViscosity_between:
  "mu_inf (interpolateHctParams h) \<le> carreauViscosity g h \<and>
   carreauViscosity g h \<le> mu_0 (interpolateHctParams h)"
  using carreauViscosity_bounds[where h = h and g = g] by simp

theorem carreauViscosity_between_witness:
  "mu_inf (interpolateHctParams 40) = 0.0032 \<and> mu_0 (interpolateHctParams 40) = 0.048 \<and>
   0.0032 \<le> carreauViscosity 100 40 \<and> carreauViscosity 100 40 \<le> 0.048"
proof -
  have b: "interpolateHctParams 40 = \<lparr>mu_inf = 0.0032, mu_0 = 0.048\<rparr>"
    by (simp add: interpolateHctParams_def HCT_VISCOSITY_TABLE_def)
  show ?thesis using carreauViscosity_between [of 40 100] unfolding b by simp
qed

text \<open>
  C9.  For every flow rate, diameter and hematocrit, the five rounds of the iteration in
  calculateBloodProperties return what a single pass returns (one evaluation of the wall
  shear rate, then one of the Carreau viscosity): the same viscosity and shear rate, and
  with them the same record.  The wall shear rate does not read the viscosity.
\<close>

theorem calculateBloodProperties_single_pass:
  "calculateBloodProperties q d h = calculateBloodProperties_singlePass q d h"
  unfolding calculateBloodProperties_def calculateBloodProperties_singlePass_def Let_def
  by (simp only: eval_nat_numeral bloodPropertiesLoop_Suc) (simp split: option.splits)

theorem calculateBloodProperties_single_pass_witness:
  "calculateBloodProperties 600 4 (40 / 100) = calculateBloodProperties_singlePass 600 4 (40 / 100) \<and>
   calculateBloodProperties 600 4 (40 / 100) \<noteq> None"
proof -
  have "calculateBloodProperties 600 4 (40 / 100) \<noteq> None"
    using calculateBloodProperties_ok[of 4 600 "40 / 100"] by auto
  then show ?thesis using calculateBloodProperties_single_pass [of 600 4 "40 / 100"] by simp
qed

section \<open>Relative residence time\<close>

text \<open>
  C5.  For every TAWSS above 0 and every OSI between 0 and 0.5, the relative residence
  time, 1 / ((1 - 2 OSI) TAWSS) with the denominator floored at 0.01, is at least 0 and at
  most 100.
\<close>

theorem calculateRRT_bounded:
  "0 < t \<Longrightarrow> 0 \<le> s \<Longrightarrow> s \<le> 1 / 2 \<Longrightarrow> 0 \<le> calculateRRT t s \<and> calculateRRT t s \<le> 100"
proof -
  let ?d = "(1 - 2 * s) * t"
  show ?thesis
  proof (cases "?d < 0.01")
    case True
    then show ?thesis by (simp add: calculateRRT_def)
  next
    case False
    then have d: "1 / 100 \<le> ?d" by simp
    then have pos: "0 < ?d" by linarith
    have "1 / ?d \<le> 1 / (1 / 100)" using d by (intro divide_left_mono) simp_all
    then have "1 / ?d \<le> 100" by simp
    moreover have "0 \<le> 1 / ?d" using pos by simp
    ultimately show ?thesis using False by (simp add: calculateRRT_def)
  qed
qed

theorem calculateRRT_bounded_witness:
  "(0::real) < 2 \<and> (0::real) \<le> 1 / 4 \<and> (1 / 4 :: real) \<le> 1 / 2 \<and>
   calculateRRT 2 (1 / 4) = 1 \<and> 0 \<le> calculateRRT 2 (1 / 4) \<and> calculateRRT 2 (1 / 4) \<le> 100"
  using calculateRRT_bounded [of 2 "1 / 4"] by (simp add: calculateRRT_def)

section \<open>Flow split\<close>

lemma calculateFlowSplit_Some:
  assumes ad: "0 < arteryDiameter p" and vd: "0 < veinDiameter p"
  defines "Rv \<equiv> 100 / (veinDiameter p / 2) ^ 4"
    and "Rd \<equiv> 80 / ((arteryDiameter p / 2) * 0.8) ^ 4"
    and "c \<equiv> 1 + 0.5 * (((anastomosisAngle p * pi) / 180) / (pi / 2)) ^ 2"
  defines "F \<equiv> (1 / (Rv * c)) / (1 / (Rv * c) + 1 / Rd)"
  shows "calculateFlowSplit p =
           Some \<lparr>veinFlowRate = bloodFlowRate p * F,
                 distalFlowRate = bloodFlowRate p * (1 - F),
                 veinFraction = F\<rparr>"
    and "0 < Rv" and "0 < Rd" and "1 \<le> c"
proof -
  show rv: "0 < Rv" using vd by (simp add: Rv_def)
  show rd: "0 < Rd" using ad by (simp add: Rd_def)
  show c1: "1 \<le> c" by (simp add: c_def)
  have rvc: "0 < Rv * c" using rv c1 by (intro mult_pos_pos) linarith+
  have tot: "0 < 1 / (Rv * c) + 1 / Rd" using rvc rd by (intro add_pos_pos) simp_all
  have n1: "(veinDiameter p / 2) ^ 4 \<noteq> 0" using vd by simp
  have n2: "((arteryDiameter p / 2) * 0.8) ^ 4 \<noteq> 0" using ad by simp
  have n3: "Rv * c \<noteq> 0" using rvc by linarith
  have n4: "Rd \<noteq> 0" using rd by simp
  have n5: "1 / (Rv * c) + 1 / Rd \<noteq> 0" using tot by linarith
  show "calculateFlowSplit p =
           Some \<lparr>veinFlowRate = bloodFlowRate p * F,
                 distalFlowRate = bloodFlowRate p * (1 - F),
                 veinFraction = F\<rparr>"
    unfolding calculateFlowSplit_def Let_def
    by (simp only: fdiv_Some[OF n1] fdiv_Some[OF n2] Option.bind.simps
          Rv_def[symmetric] Rd_def[symmetric] c_def[symmetric]
          fdiv_Some[OF n3] fdiv_Some[OF n4] fdiv_Some[OF n5] F_def[symmetric])
qed

lemma veinFraction_form:
  assumes "0 < Rv" "0 < Rd" "1 \<le> (c::real)"
  shows "(1 / (Rv * c)) / (1 / (Rv * c) + 1 / Rd) = Rd / (Rd + Rv * c)"
proof -
  have "0 < Rv * c" using assms by (intro mult_pos_pos) linarith+
  then show ?thesis using assms by (simp add: field_simps)
qed

lemma calculateFlowSplit_ok:
  assumes "0 < arteryDiameter p" "0 < veinDiameter p"
  shows "\<exists>fs. calculateFlowSplit p = Some fs \<and>
           (0 \<le> veinFraction fs \<and> veinFraction fs \<le> 1 \<and>
            veinFlowRate fs = bloodFlowRate p * veinFraction fs \<and>
            distalFlowRate fs = bloodFlowRate p * (1 - veinFraction fs))"
proof -
  define Rv where "Rv = 100 / (veinDiameter p / 2) ^ 4"
  define Rd where "Rd = 80 / ((arteryDiameter p / 2) * 0.8) ^ 4"
  define c where "c = 1 + 0.5 * (((anastomosisAngle p * pi) / 180) / (pi / 2)) ^ 2"
  define F where "F = (1 / (Rv * c)) / (1 / (Rv * c) + 1 / Rd)"
  note fs = calculateFlowSplit_Some[OF assms(1,2), folded Rv_def Rd_def c_def, folded F_def]
  have rvc: "0 < Rv * c" using fs(2,4) by (intro mult_pos_pos) linarith+
  have F: "F = Rd / (Rd + Rv * c)" unfolding F_def using fs(2-4) by (rule veinFraction_form)
  have "0 \<le> F" unfolding F using fs(3) rvc by simp
  moreover have "F \<le> 1" unfolding F using fs(3) rvc by simp
  ultimately show ?thesis using fs(1) by simp
qed

lemma angleCorrection_mono:
  assumes "0 \<le> a1" "a1 < (a2::real)"
  shows "1 + 0.5 * (((a1 * pi) / 180) / (pi / 2)) ^ 2 < 1 + 0.5 * (((a2 * pi) / 180) / (pi / 2)) ^ 2"
proof -
  have e: "((a * pi) / 180) / (pi / 2) = a / 90" for a :: real by simp
  have "(a1 / 90) ^ 2 < (a2 / 90) ^ 2"
    using assms by (intro power_strict_mono) simp_all
  then show ?thesis unfolding e by simp
qed

text \<open>
  C2.  For every anastomosis angle from 15 to 90 degrees and all positive artery and vein
  diameters, calculateFlowSplit returns a vein fraction between 0 and 1, and the vein and
  distal flow rates add up to the blood flow rate given (exactly, in real arithmetic).
\<close>

theorem calculateFlowSplit_fraction_and_sum:
  assumes "0 < arteryDiameter p" "0 < veinDiameter p"
    and "15 \<le> anastomosisAngle p" "anastomosisAngle p \<le> 90"
  shows "\<exists>fs. calculateFlowSplit p = Some fs \<and> 0 \<le> veinFraction fs \<and> veinFraction fs \<le> 1 \<and>
           veinFlowRate fs + distalFlowRate fs = bloodFlowRate p"
proof -
  obtain fs where fs: "calculateFlowSplit p = Some fs" "0 \<le> veinFraction fs" "veinFraction fs \<le> 1"
      "veinFlowRate fs = bloodFlowRate p * veinFraction fs"
      "distalFlowRate fs = bloodFlowRate p * (1 - veinFraction fs)"
    using calculateFlowSplit_ok[OF assms(1,2)] by blast
  have "veinFlowRate fs + distalFlowRate fs = bloodFlowRate p"
    unfolding fs(4,5) by (simp add: algebra_simps)
  then show ?thesis using fs(1-3) by blast
qed

theorem calculateFlowSplit_fraction_and_sum_witness:
  "0 < arteryDiameter DEFAULT_PARAMS \<and> 0 < veinDiameter DEFAULT_PARAMS \<and>
   15 \<le> anastomosisAngle DEFAULT_PARAMS \<and> anastomosisAngle DEFAULT_PARAMS \<le> 90 \<and>
   (\<exists>fs. calculateFlowSplit DEFAULT_PARAMS = Some fs \<and> 0 \<le> veinFraction fs \<and>
         veinFraction fs \<le> 1 \<and> veinFlowRate fs + distalFlowRate fs = 600)"
  using calculateFlowSplit_fraction_and_sum [of DEFAULT_PARAMS]
  by (simp add: DEFAULT_PARAMS_def)

subsection \<open>Rounding\<close>

lemma round_even_error: "\<bar>of_int (round_even r) - r\<bar> \<le> 1 / 2"
proof -
  define f where "f = \<lfloor>r\<rfloor>"
  have b: "of_int f \<le> r" "r < of_int f + 1" unfolding f_def by linarith+
  consider "r - of_int f < 1 / 2" | "1 / 2 < r - of_int f" | "r - of_int f = 1 / 2" by linarith
  then show ?thesis
  proof cases
    case 1
    then have "round_even r = f" by (simp add: round_even_def f_def Let_def)
    then show ?thesis using 1 b by simp
  next
    case 2
    then have "round_even r = f + 1" by (simp add: round_even_def f_def Let_def)
    then show ?thesis using 2 b by simp
  next
    case 3
    then have "round_even r = f \<or> round_even r = f + 1"
      by (simp add: round_even_def f_def Let_def)
    then show ?thesis using 3 b by auto
  qed
qed

lemma ulp_le:
  fixes x :: real
  assumes "x \<noteq> 0"
  shows "(0::real) < 2 powr (of_int (\<lfloor>log 2 \<bar>x\<bar>\<rfloor> - 52))"
    and "(2::real) powr (of_int (\<lfloor>log 2 \<bar>x\<bar>\<rfloor> - 52)) \<le> \<bar>x\<bar> / 2 ^ 52"
proof -
  show "(0::real) < 2 powr (of_int (\<lfloor>log 2 \<bar>x\<bar>\<rfloor> - 52))" by simp
  have ax: "0 < \<bar>x\<bar>" using assms by simp
  have "(2::real) powr (of_int \<lfloor>log 2 \<bar>x\<bar>\<rfloor>) \<le> 2 powr (log 2 \<bar>x\<bar>)"
    by (intro powr_mono) simp_all
  also have "\<dots> = \<bar>x\<bar>" using ax by simp
  finally have a: "(2::real) powr (of_int \<lfloor>log 2 \<bar>x\<bar>\<rfloor>) \<le> \<bar>x\<bar>" .
  have "(2::real) powr (of_int (\<lfloor>log 2 \<bar>x\<bar>\<rfloor> - 52)) =
          2 powr (of_int \<lfloor>log 2 \<bar>x\<bar>\<rfloor>) / 2 powr 52"
    by (simp add: powr_diff)
  also have "(2::real) powr 52 = 2 ^ 52" by (simp add: powr_numeral)
  finally show "(2::real) powr (of_int (\<lfloor>log 2 \<bar>x\<bar>\<rfloor> - 52)) \<le> \<bar>x\<bar> / 2 ^ 52"
    using a by (simp add: divide_right_mono)
qed

lemma fl_error: "\<bar>fl x - x\<bar> \<le> \<bar>x\<bar> / 2 ^ 53"
proof (cases "x = 0")
  case True
  then show ?thesis by (simp add: fl_def)
next
  case False
  define u :: real where "u = 2 powr (of_int (\<lfloor>log 2 \<bar>x\<bar>\<rfloor> - 52))"
  have u: "0 < u" "u \<le> \<bar>x\<bar> / 2 ^ 52" using ulp_le[OF False] by (simp_all add: u_def)
  have "fl x = of_int (round_even (x / u)) * u"
    unfolding u_def fl_def Let_def using False by (simp only: if_False)
  then have "fl x - x = (of_int (round_even (x / u)) - x / u) * u"
    using u(1) by (simp add: algebra_simps)
  then have "\<bar>fl x - x\<bar> = \<bar>of_int (round_even (x / u)) - x / u\<bar> * u"
    using u(1) by (simp add: abs_mult)
  also have "\<dots> \<le> (1 / 2) * u"
    using round_even_error[of "x / u"] u(1) by (intro mult_right_mono) simp_all
  also have "\<dots> \<le> (1 / 2) * (\<bar>x\<bar> / 2 ^ 52)" using u(2) by simp
  also have "\<dots> = \<bar>x\<bar> / 2 ^ 53" by simp
  finally show ?thesis .
qed

lemma fl_bounds:
  assumes "0 < x"
  shows "x * (1 - 1 / 2 ^ 53) \<le> fl x" "fl x \<le> x * (1 + 1 / 2 ^ 53)" "0 < fl x"
proof -
  define e where "e = x / 2 ^ 53"
  have e: "\<bar>fl x - x\<bar> \<le> e" using fl_error[of x] assms by (simp add: e_def)
  have xe: "x * (1 - 1 / 2 ^ 53) = x - e" "x * (1 + 1 / 2 ^ 53) = x + e"
    by (simp_all add: e_def algebra_simps)
  show a: "x * (1 - 1 / 2 ^ 53) \<le> fl x" unfolding xe using e by linarith
  show "fl x \<le> x * (1 + 1 / 2 ^ 53)" unfolding xe using e by linarith
  have "0 < x * (1 - 1 / 2 ^ 53)" using assms by (intro mult_pos_pos) simp_all
  then show "0 < fl x" using a by linarith
qed

lemma fl_one_plus_tiny:
  assumes "0 \<le> y" "y < 1 / 2 ^ 53"
  shows "fl (1 + y) = 1"
proof -
  have "(1::real) / 2 ^ 53 < 1" by simp
  then have z: "1 \<le> 1 + y" "1 + y < 2" using assms by linarith+
  have l0: "0 \<le> log 2 (1 + y)" using z(1) by simp
  have l1: "log 2 (1 + y) < 1" using z by (simp add: log_less_iff)
  have a: "\<bar>1 + y\<bar> = 1 + y" using z(1) by simp
  have fl0: "\<lfloor>log 2 \<bar>1 + y\<bar>\<rfloor> = 0" unfolding a using l0 l1 by (simp add: floor_eq_iff)
  have u: "(2::real) powr (of_int (0 - 52)) = 1 / 2 ^ 52"
    by (simp add: powr_minus powr_numeral divide_simps)
  have q: "(1 + y) / (1 / 2 ^ 52) = 2 ^ 52 + y * 2 ^ 52" by (simp add: algebra_simps)
  have y2: "0 \<le> y * 2 ^ 52" "y * 2 ^ 52 < 1 / 2" using assms by (simp_all add: field_simps)
  have f: "\<lfloor>2 ^ 52 + y * 2 ^ 52 :: real\<rfloor> = 2 ^ 52"
    using y2 by (intro floor_unique) simp_all
  have r: "round_even (2 ^ 52 + y * 2 ^ 52) = 2 ^ 52"
    unfolding round_even_def Let_def f using y2 by simp
  have "1 + y \<noteq> 0" using z(1) by simp
  then show ?thesis
    unfolding fl_def Let_def fl0 u q r by simp
qed

lemma sigma: "0 < (1 - 1 / 2 ^ 53 :: real)" "(1 - 1 / 2 ^ 53 :: real) \<le> 1"
  by simp_all

lemma sigma_pow: "0 < (1 - 1 / 2 ^ 53 :: real) ^ k" "(1 - 1 / 2 ^ 53 :: real) ^ k \<le> 1"
  using sigma by (simp_all add: power_le_one)

lemma near_pos: "near k a b \<Longrightarrow> 0 < a"
proof -
  assume n: "near k a b"
  then have "0 < b * (1 - 1 / 2 ^ 53) ^ k" unfolding near_def using sigma_pow(1)[of k] by (intro mult_pos_pos) simp_all
  then show ?thesis using n unfolding near_def by linarith
qed

lemma near_refl: "0 < b \<Longrightarrow> near 0 b b"
  by (simp add: near_def)

lemma near_mono:
  assumes "near k a b" "k \<le> m"
  shows "near m a b"
proof -
  define s :: real where "s = 1 - 1 / 2 ^ 53"
  have s: "0 < s" "s \<le> 1" by (simp_all add: s_def)
  have pm: "s ^ m \<le> s ^ k" using assms(2) s by (intro power_decreasing) simp_all
  have b: "0 < b" and l: "b * s ^ k \<le> a" and u: "a * s ^ k \<le> b"
    using assms(1) by (simp_all add: near_def s_def)
  have a: "0 < a" using near_pos[OF assms(1)] .
  have "b * s ^ m \<le> b * s ^ k" using pm b by simp
  moreover have "a * s ^ m \<le> a * s ^ k" using pm a by simp
  ultimately show ?thesis unfolding near_def s_def[symmetric] using b l u by linarith
qed

lemma near_fl:
  assumes "near k a b"
  shows "near (Suc k) (fl a) b"
proof -
  define s :: real where "s = 1 - 1 / 2 ^ 53"
  have s: "0 < s" "s \<le> 1" by (simp_all add: s_def)
  have sk: "0 < s ^ k" using s by simp
  have b: "0 < b" and l: "b * s ^ k \<le> a" and u: "a * s ^ k \<le> b"
    using assms by (simp_all add: near_def s_def)
  have a: "0 < a" using near_pos[OF assms] .
  have f1: "a * s \<le> fl a" using fl_bounds(1)[OF a] by (simp add: s_def)
  have f2: "fl a \<le> a * (1 + 1 / 2 ^ 53)" using fl_bounds(2)[OF a] .
  have "b * s ^ Suc k = (b * s ^ k) * s" by simp
  also have "\<dots> \<le> a * s" using l s by (intro mult_right_mono) simp_all
  also have "\<dots> \<le> fl a" using f1 .
  finally have lo: "b * s ^ Suc k \<le> fl a" .
  have ss: "(1 + 1 / 2 ^ 53) * s \<le> (1::real)" by (simp add: s_def)
  have "fl a * s ^ Suc k \<le> a * (1 + 1 / 2 ^ 53) * s ^ Suc k"
    using f2 s by (intro mult_right_mono) simp_all
  also have "\<dots> = (a * s ^ k) * ((1 + 1 / 2 ^ 53) * s)" by simp
  also have "\<dots> \<le> (a * s ^ k) * 1" using ss a sk by (intro mult_left_mono) simp_all
  also have "\<dots> \<le> b" using u by simp
  finally have hi: "fl a * s ^ Suc k \<le> b" .
  show ?thesis unfolding near_def s_def[symmetric] using b lo hi by simp
qed

lemma near_mult:
  assumes "near k a b" "near l c d"
  shows "near (k + l) (a * c) (b * d)"
proof -
  define s :: real where "s = 1 - 1 / 2 ^ 53"
  have s: "0 < s" by (simp add: s_def)
  have b: "0 < b" and l1: "b * s ^ k \<le> a" and u1: "a * s ^ k \<le> b"
    using assms(1) by (simp_all add: near_def s_def)
  have d: "0 < d" and l2: "d * s ^ l \<le> c" and u2: "c * s ^ l \<le> d"
    using assms(2) by (simp_all add: near_def s_def)
  have a: "0 < a" and c: "0 < c" using near_pos assms by blast+
  have "(b * s ^ k) * (d * s ^ l) \<le> a * c"
    using l1 l2 b d s a by (intro mult_mono) simp_all
  then have lo: "(b * d) * s ^ (k + l) \<le> a * c" by (simp add: power_add mult_ac)
  have "(a * s ^ k) * (c * s ^ l) \<le> b * d"
    using u1 u2 a c s b by (intro mult_mono) simp_all
  then have hi: "(a * c) * s ^ (k + l) \<le> b * d" by (simp add: power_add mult_ac)
  show ?thesis unfolding near_def s_def[symmetric] using b d lo hi by simp
qed

lemma near_inverse:
  assumes "near k a b"
  shows "near k (1 / a) (1 / b)"
proof -
  define s :: real where "s = 1 - 1 / 2 ^ 53"
  have b: "0 < b" and l1: "b * s ^ k \<le> a" and u1: "a * s ^ k \<le> b"
    using assms by (simp_all add: near_def s_def)
  have a: "0 < a" using near_pos assms by blast
  have lo: "(1 / b) * s ^ k \<le> 1 / a" using u1 a b by (simp add: field_simps)
  have hi: "(1 / a) * s ^ k \<le> 1 / b" using l1 a b by (simp add: field_simps)
  show ?thesis unfolding near_def s_def[symmetric] using b lo hi by simp
qed

lemma near_div:
  assumes "near k a b" "near l c d"
  shows "near (k + l) (a / c) (b / d)"
  using near_mult[OF assms(1) near_inverse[OF assms(2)]] by simp

lemma near_add:
  assumes "near k a b" "near l c d"
  shows "near (max k l) (a + c) (b + d)"
proof -
  define s :: real where "s = 1 - 1 / 2 ^ 53"
  have n1: "near (max k l) a b" using near_mono[OF assms(1)] by simp
  have n2: "near (max k l) c d" using near_mono[OF assms(2)] by simp
  have b: "0 < b" and l1: "b * s ^ max k l \<le> a" and u1: "a * s ^ max k l \<le> b"
    using n1 by (simp_all add: near_def s_def)
  have d: "0 < d" and l2: "d * s ^ max k l \<le> c" and u2: "c * s ^ max k l \<le> d"
    using n2 by (simp_all add: near_def s_def)
  show ?thesis unfolding near_def s_def[symmetric] using b d l1 l2 u1 u2
    by (simp add: algebra_simps)
qed

lemma near_power:
  assumes "near k a b"
  shows "near (n * k) (a ^ n) (b ^ n)"
proof (induction n)
  case 0
  then show ?case by (simp add: near_def)
next
  case (Suc n)
  have "near (k + n * k) (a * a ^ n) (b * b ^ n)" using near_mult[OF assms Suc] .
  then show ?case by simp
qed

lemma fdivd_Some: "b \<noteq> 0 \<Longrightarrow> fdivd a b = Some (fl (a / b))"
  by (simp add: fdivd_def)

lemma MATH_PI_pos: "0 < MATH_PI"
  by (simp add: MATH_PI_def)

lemma sigma_power_lower: "1 - real n / 2 ^ 53 \<le> (1 - 1 / 2 ^ 53 :: real) ^ n"
  using Bernoulli_inequality[of "- (1 / 2 ^ 53) :: real" n] by (simp add: algebra_simps)

lemma correction_term_near:
  assumes a: "0 < a"
  shows "near 10 (fl (0.5 * fl (fl (fl (fl (a * MATH_PI) / 180) / fl (MATH_PI / 2)) ^ 2)))
                 (0.5 * (a / 90) ^ 2)"
proof -
  have P: "0 < MATH_PI" by (rule MATH_PI_pos)
  have "near 1 (fl (a * MATH_PI)) (a * MATH_PI)"
    using near_fl[OF near_refl, of "a * MATH_PI"] a P by simp
  from near_div[OF this near_refl[of 180]]
  have "near 1 (fl (a * MATH_PI) / 180) (a * MATH_PI / 180)" by simp
  from near_fl[OF this] have n_rad: "near 2 (fl (fl (a * MATH_PI) / 180)) (a * MATH_PI / 180)"
    by (simp add: numeral_2_eq_2)
  have n_half: "near 1 (fl (MATH_PI / 2)) (MATH_PI / 2)"
    using near_fl[OF near_refl, of "MATH_PI / 2"] P by simp
  have P0: "MATH_PI \<noteq> 0" using P by simp
  have r: "a * MATH_PI / 180 / (MATH_PI / 2) = a / 90" using P0 by simp
  from near_fl[OF near_div[OF n_rad n_half]]
  have n_x: "near 4 (fl (fl (fl (a * MATH_PI) / 180) / fl (MATH_PI / 2))) (a / 90)"
    unfolding r by (simp add: eval_nat_numeral)
  from near_fl[OF near_power[OF n_x, of 2]]
  have n_sq: "near 9 (fl (fl (fl (fl (a * MATH_PI) / 180) / fl (MATH_PI / 2)) ^ 2)) ((a / 90) ^ 2)"
    by (simp add: eval_nat_numeral)
  have half: "near 0 (0.5::real) 0.5" by (rule near_refl) simp
  from near_fl[OF near_mult[OF half n_sq]]
  show ?thesis by (simp add: eval_nat_numeral)
qed

lemma angleCorrection_double_one:
  assumes "0 < a" "a \<le> 1 / 2 ^ 23"
  shows "fl (1 + fl (0.5 * fl (fl (fl (fl (a * MATH_PI) / 180) / fl (MATH_PI / 2)) ^ 2))) = 1"
proof -
  define yd where "yd = fl (0.5 * fl (fl (fl (fl (a * MATH_PI) / 180) / fl (MATH_PI / 2)) ^ 2))"
  define y where "y = 0.5 * (a / 90) ^ 2"
  have n: "near 10 yd y" unfolding yd_def y_def by (rule correction_term_near[OF assms(1)])
  have yd0: "0 < yd" using near_pos[OF n] .
  have up: "yd * (1 - 1 / 2 ^ 53) ^ 10 \<le> y" using n by (simp add: near_def)
  have "(1 / 2 :: real) \<le> 1 - real 10 / 2 ^ 53" by simp
  also have "\<dots> \<le> (1 - 1 / 2 ^ 53) ^ 10" by (rule sigma_power_lower)
  finally have "yd * (1 / 2) \<le> yd * (1 - 1 / 2 ^ 53) ^ 10" using yd0 by (intro mult_left_mono) simp_all
  then have yd2: "yd \<le> 2 * y" using up by linarith
  have "(a / 90) ^ 2 \<le> ((1 / 2 ^ 23) / 90) ^ 2"
    using assms by (intro power_mono divide_right_mono) simp_all
  then have "2 * y \<le> ((1 / 2 ^ 23) / 90) ^ 2" by (simp add: y_def)
  also have "\<dots> < 1 / 2 ^ 53" by (simp add: power_divide)
  finally have "yd < 1 / 2 ^ 53" using yd2 by linarith
  then show ?thesis unfolding yd_def[symmetric] using yd0 by (intro fl_one_plus_tiny) simp_all
qed

lemma flowFraction_strict:
  assumes "0 < Rv" "0 < Rd" "1 \<le> c1" "c1 < (c2::real)"
  shows "(1 / (Rv * c2)) / (1 / (Rv * c2) + 1 / Rd) < (1 / (Rv * c1)) / (1 / (Rv * c1) + 1 / Rd)"
proof -
  have c2: "1 \<le> c2" using assms(3,4) by linarith
  have F1: "(1 / (Rv * c1)) / (1 / (Rv * c1) + 1 / Rd) = Rd / (Rd + Rv * c1)"
    using assms(1-3) by (rule veinFraction_form)
  have F2: "(1 / (Rv * c2)) / (1 / (Rv * c2) + 1 / Rd) = Rd / (Rd + Rv * c2)"
    using assms(1,2) c2 by (rule veinFraction_form)
  have pos: "0 < Rd + Rv * c1" "0 < Rd + Rv * c2"
    using assms(1-3) c2 by (intro add_pos_pos mult_pos_pos; linarith)+
  have "Rv * c1 < Rv * c2" using assms(1,4) by simp
  then have "Rd + Rv * c1 < Rd + Rv * c2" by simp
  then have "Rd / (Rd + Rv * c2) < Rd / (Rd + Rv * c1)"
    using assms(2) pos by (intro divide_strict_left_mono mult_pos_pos)
  then show ?thesis unfolding F1 F2 .
qed

lemma calculateFlowSplit_double_near:
  assumes ad: "0 < arteryDiameter p" and vd: "0 < veinDiameter p" and ang: "0 < anastomosisAngle p"
  defines "Rv \<equiv> 100 / (veinDiameter p / 2) ^ 4"
    and "Rd \<equiv> 80 / ((arteryDiameter p / 2) * 0.8) ^ 4"
    and "c \<equiv> 1 + 0.5 * (((anastomosisAngle p * pi) / 180) / (pi / 2)) ^ 2"
  shows "\<exists>fs. calculateFlowSplit_double p = Some fs \<and>
           near 40 (veinFraction fs) ((1 / (Rv * c)) / (1 / (Rv * c) + 1 / Rd))"
proof -
  define a where "a = anastomosisAngle p"
  define vr where "vr = fl (veinDiameter p / 2)"
  define ar where "ar = fl (arteryDiameter p / 2)"
  define angleRad where "angleRad = fl (fl (a * MATH_PI) / 180)"
  define Rvd where "Rvd = fl (100 / fl (vr ^ 4))"
  define Rdd where "Rdd = fl (80 / fl (fl (ar * fl 0.8) ^ 4))"
  define cd where "cd = fl (1 + fl (0.5 * fl (fl (angleRad / fl (MATH_PI / 2)) ^ 2)))"
  define Re where "Re = fl (Rvd * cd)"
  define gv where "gv = fl (1 / Re)"
  define gd where "gd = fl (1 / Rdd)"
  define tot where "tot = fl (gv + gd)"
  define F where "F = fl (gv / tot)"
  have P: "0 < MATH_PI" by (rule MATH_PI_pos)
  have a: "0 < a" using ang by (simp add: a_def)
  \<comment> \<open>the radii\<close>
  have n_vr: "near 1 vr (veinDiameter p / 2)"
    unfolding vr_def using near_fl[OF near_refl, of "veinDiameter p / 2"] vd by simp
  have n_ar: "near 1 ar (arteryDiameter p / 2)"
    unfolding ar_def using near_fl[OF near_refl, of "arteryDiameter p / 2"] ad by simp
  \<comment> \<open>the angle correction\<close>
  have "near 1 (fl (a * MATH_PI)) (a * MATH_PI)"
    using near_fl[OF near_refl, of "a * MATH_PI"] a P by simp
  from near_div[OF this near_refl[of 180]]
  have "near 1 (fl (a * MATH_PI) / 180) (a * MATH_PI / 180)" by simp
  from near_fl[OF this] have n_rad: "near 2 angleRad (a * MATH_PI / 180)"
    by (simp add: angleRad_def numeral_2_eq_2)
  have n_half: "near 1 (fl (MATH_PI / 2)) (MATH_PI / 2)"
    using near_fl[OF near_refl, of "MATH_PI / 2"] P by simp
  from near_fl[OF near_div[OF n_rad n_half]]
  have n_x: "near 4 (fl (angleRad / fl (MATH_PI / 2))) (a * MATH_PI / 180 / (MATH_PI / 2))"
    by (simp add: eval_nat_numeral)
  from near_fl[OF near_power[OF n_x, of 2]]
  have n_sq: "near 9 (fl (fl (angleRad / fl (MATH_PI / 2)) ^ 2)) ((a * MATH_PI / 180 / (MATH_PI / 2)) ^ 2)"
    by (simp add: eval_nat_numeral)
  have half: "near 0 (0.5::real) 0.5" by (rule near_refl) simp
  from near_fl[OF near_mult[OF half n_sq]]
  have n_y: "near 10 (fl (0.5 * fl (fl (angleRad / fl (MATH_PI / 2)) ^ 2)))
                     (0.5 * (a * MATH_PI / 180 / (MATH_PI / 2)) ^ 2)"
    by (simp add: eval_nat_numeral)
  from near_fl[OF near_add[OF near_refl[of 1] n_y]]
  have n_c0: "near 11 cd (1 + 0.5 * (a * MATH_PI / 180 / (MATH_PI / 2)) ^ 2)"
    by (simp add: cd_def eval_nat_numeral)
  have P0: "MATH_PI \<noteq> 0" using P by simp
  have "a * MATH_PI / 180 / (MATH_PI / 2) = a / 90" using P0 by simp
  moreover have "a * pi / 180 / (pi / 2) = a / 90" by simp
  ultimately have "1 + 0.5 * (a * MATH_PI / 180 / (MATH_PI / 2)) ^ 2 = c"
    unfolding c_def a_def by (simp only:)
  then have n_c: "near 11 cd c" using n_c0 by (simp only:)
  \<comment> \<open>the two resistances\<close>
  from near_fl[OF near_power[OF n_vr, of 4]]
  have "near 5 (fl (vr ^ 4)) ((veinDiameter p / 2) ^ 4)" by (simp add: eval_nat_numeral)
  from near_fl[OF near_div[OF near_refl[of 100] this]]
  have n_Rv: "near 6 Rvd Rv" by (simp add: Rvd_def Rv_def eval_nat_numeral)
  have "near 1 (fl 0.8) (0.8::real)" using near_fl[OF near_refl, of "0.8"] by simp
  from near_fl[OF near_mult[OF n_ar this]]
  have "near 3 (fl (ar * fl 0.8)) (arteryDiameter p / 2 * 0.8)" by (simp add: eval_nat_numeral)
  from near_fl[OF near_power[OF this, of 4]]
  have "near 13 (fl (fl (ar * fl 0.8) ^ 4)) ((arteryDiameter p / 2 * 0.8) ^ 4)"
    by (simp add: eval_nat_numeral)
  from near_fl[OF near_div[OF near_refl[of 80] this]]
  have n_Rd: "near 14 Rdd Rd" by (simp add: Rdd_def Rd_def eval_nat_numeral)
  \<comment> \<open>the conductances and the fraction\<close>
  from near_fl[OF near_mult[OF n_Rv n_c]]
  have n_Re: "near 18 Re (Rv * c)" by (simp add: Re_def eval_nat_numeral)
  from near_fl[OF near_inverse[OF n_Re]]
  have n_gv: "near 19 gv (1 / (Rv * c))" by (simp add: gv_def eval_nat_numeral)
  from near_fl[OF near_inverse[OF n_Rd]]
  have n_gd: "near 15 gd (1 / Rd)" by (simp add: gd_def eval_nat_numeral)
  from near_fl[OF near_add[OF n_gv n_gd]]
  have n_tot: "near 20 tot (1 / (Rv * c) + 1 / Rd)" by (simp add: tot_def eval_nat_numeral)
  from near_fl[OF near_div[OF n_gv n_tot]]
  have n_F: "near 40 F ((1 / (Rv * c)) / (1 / (Rv * c) + 1 / Rd))"
    by (simp add: F_def eval_nat_numeral)
  \<comment> \<open>the divisors are not zero\<close>
  have z1: "fl (vr ^ 4) \<noteq> 0"
    using near_pos[OF near_fl[OF near_power[OF n_vr, of 4]]] by simp
  have z2: "fl (fl (ar * fl 0.8) ^ 4) \<noteq> 0"
    using near_pos[OF \<open>near 13 (fl (fl (ar * fl 0.8) ^ 4)) ((arteryDiameter p / 2 * 0.8) ^ 4)\<close>] by simp
  have z3: "Re \<noteq> 0" using near_pos[OF n_Re] by simp
  have z4: "Rdd \<noteq> 0" using near_pos[OF n_Rd] by simp
  have z5: "tot \<noteq> 0" using near_pos[OF n_tot] by simp
  have "calculateFlowSplit_double p =
          Some \<lparr>veinFlowRate = fl (bloodFlowRate p * F),
                distalFlowRate = fl (bloodFlowRate p * fl (1 - F)),
                veinFraction = F\<rparr>"
    unfolding calculateFlowSplit_double_def Let_def
    by (simp only: a_def[symmetric] vr_def[symmetric] ar_def[symmetric] angleRad_def[symmetric]
        fdivd_Some[OF z1] fdivd_Some[OF z2] Option.bind.simps Rvd_def[symmetric]
        Rdd_def[symmetric] cd_def[symmetric] Re_def[symmetric] fdivd_Some[OF z3]
        fdivd_Some[OF z4] gv_def[symmetric] gd_def[symmetric] tot_def[symmetric]
        fdivd_Some[OF z5] F_def[symmetric])
  then show ?thesis using n_F by simp
qed

text \<open>
  C10, as stated: for fixed positive diameters and a fixed flow rate, the vein fraction
  returned by calculateFlowSplit is strictly decreasing in the anastomosis angle on (0, 90].
  In double precision it fails at the default parameters and the angles 2^-24 and 2^-23
  degrees (about 6.0e-8 and 1.2e-7): for both, the term added to 1 in the angle correction
  is below 2^-53, the correction rounds to 1, and the two calls return the same fraction.
\<close>

theorem calculateFlowSplit_double_veinFraction_tie:
  "0 < arteryDiameter DEFAULT_PARAMS \<and> 0 < veinDiameter DEFAULT_PARAMS \<and>
   (0::real) < 1 / 2 ^ 24 \<and> (1 / 2 ^ 24 :: real) < 1 / 2 ^ 23 \<and> (1 / 2 ^ 23 :: real) \<le> 90 \<and>
   calculateFlowSplit_double (DEFAULT_PARAMS\<lparr>anastomosisAngle := 1 / 2 ^ 24\<rparr>) \<noteq> None \<and>
   veinFraction (the (calculateFlowSplit_double (DEFAULT_PARAMS\<lparr>anastomosisAngle := 1 / 2 ^ 23\<rparr>))) =
   veinFraction (the (calculateFlowSplit_double (DEFAULT_PARAMS\<lparr>anastomosisAngle := 1 / 2 ^ 24\<rparr>)))"
proof -
  have e1: "fl (1 + fl (0.5 * fl (fl (fl (fl (1 / 2 ^ 24 * MATH_PI) / 180) / fl (MATH_PI / 2)) ^ 2))) = 1"
    by (rule angleCorrection_double_one) simp_all
  have e2: "fl (1 + fl (0.5 * fl (fl (fl (fl (1 / 2 ^ 23 * MATH_PI) / 180) / fl (MATH_PI / 2)) ^ 2))) = 1"
    by (rule angleCorrection_double_one) simp_all
  have eq: "calculateFlowSplit_double (DEFAULT_PARAMS\<lparr>anastomosisAngle := 1 / 2 ^ 23\<rparr>) =
            calculateFlowSplit_double (DEFAULT_PARAMS\<lparr>anastomosisAngle := 1 / 2 ^ 24\<rparr>)"
  proof -
    have sel: "anastomosisAngle (DEFAULT_PARAMS\<lparr>anastomosisAngle := a\<rparr>) = a"
      "veinDiameter (DEFAULT_PARAMS\<lparr>anastomosisAngle := a\<rparr>) = veinDiameter DEFAULT_PARAMS"
      "arteryDiameter (DEFAULT_PARAMS\<lparr>anastomosisAngle := a\<rparr>) = arteryDiameter DEFAULT_PARAMS"
      "bloodFlowRate (DEFAULT_PARAMS\<lparr>anastomosisAngle := a\<rparr>) = bloodFlowRate DEFAULT_PARAMS"
      for a by simp_all
    show ?thesis
      unfolding calculateFlowSplit_double_def Let_def by (simp only: sel e1 e2)
  qed
  obtain d where "calculateFlowSplit_double (DEFAULT_PARAMS\<lparr>anastomosisAngle := 1 / 2 ^ 24\<rparr>) = Some d"
    using calculateFlowSplit_double_near[of "DEFAULT_PARAMS\<lparr>anastomosisAngle := 1 / 2 ^ 24\<rparr>"]
    by (auto simp: DEFAULT_PARAMS_def)
  then show ?thesis using eq by (simp add: DEFAULT_PARAMS_def)
qed

text \<open>
  C10, amended.  For fixed positive diameters and a fixed flow rate, the vein fraction of
  calculateFlowSplit is strictly decreasing in the anastomosis angle on (0, 90] in exact
  arithmetic; in double precision it is decreasing up to rounding: of two angles there, the
  fraction returned for the larger one, less a relative 2^-46, is below the fraction
  returned for the smaller one.  (The bound counts 40 roundings for each fraction and has
  room for a \<open>Math.pow\<close> that is accurate to one unit in the last place.)
\<close>

theorem calculateFlowSplit_veinFraction_decreasing_up_to_rounding:
  assumes "0 < arteryDiameter p" "0 < veinDiameter p"
    and "0 < a1" "a1 < a2" "a2 \<le> 90"
  shows "(\<exists>f1 f2. calculateFlowSplit (p\<lparr>anastomosisAngle := a1\<rparr>) = Some f1 \<and>
                  calculateFlowSplit (p\<lparr>anastomosisAngle := a2\<rparr>) = Some f2 \<and>
                  veinFraction f2 < veinFraction f1) \<and>
         (\<exists>d1 d2. calculateFlowSplit_double (p\<lparr>anastomosisAngle := a1\<rparr>) = Some d1 \<and>
                  calculateFlowSplit_double (p\<lparr>anastomosisAngle := a2\<rparr>) = Some d2 \<and>
                  veinFraction d2 * (1 - 1 / 2 ^ 46) < veinFraction d1)"
proof -
  define Rv where "Rv = 100 / (veinDiameter p / 2) ^ 4"
  define Rd where "Rd = 80 / ((arteryDiameter p / 2) * 0.8) ^ 4"
  define c where "c a = 1 + 0.5 * (((a * pi) / 180) / (pi / 2)) ^ 2" for a :: real
  define F where "F a = (1 / (Rv * c a)) / (1 / (Rv * c a) + 1 / Rd)" for a
  have rv: "0 < Rv" using assms(2) by (simp add: Rv_def)
  have rd: "0 < Rd" using assms(1) by (simp add: Rd_def)
  have c1: "1 \<le> c a" for a by (simp add: c_def)
  have cm: "c a1 < c a2" unfolding c_def using assms(3,4) by (intro angleCorrection_mono) simp_all
  have strict: "F a2 < F a1" unfolding F_def using rv rd c1 cm by (rule flowFraction_strict)
  have a2: "0 < a2" using assms(3,4) by linarith
  \<comment> \<open>exact arithmetic\<close>
  have fs: "calculateFlowSplit (p\<lparr>anastomosisAngle := a\<rparr>) =
              Some \<lparr>veinFlowRate = bloodFlowRate p * F a,
                    distalFlowRate = bloodFlowRate p * (1 - F a), veinFraction = F a\<rparr>" for a
    using calculateFlowSplit_Some(1)[of "p\<lparr>anastomosisAngle := a\<rparr>"] assms(1,2)
    by (simp add: F_def c_def Rv_def Rd_def)
  have exact: "\<exists>f1 f2. calculateFlowSplit (p\<lparr>anastomosisAngle := a1\<rparr>) = Some f1 \<and>
                  calculateFlowSplit (p\<lparr>anastomosisAngle := a2\<rparr>) = Some f2 \<and>
                  veinFraction f2 < veinFraction f1"
    using fs strict by simp
  \<comment> \<open>double precision\<close>
  have dbl: "\<exists>d. calculateFlowSplit_double (p\<lparr>anastomosisAngle := a\<rparr>) = Some d \<and>
                 near 40 (veinFraction d) (F a)" if "0 < a" for a
    using calculateFlowSplit_double_near[of "p\<lparr>anastomosisAngle := a\<rparr>"] assms(1,2) that
    by (simp add: F_def c_def Rv_def Rd_def)
  obtain d1 where d1: "calculateFlowSplit_double (p\<lparr>anastomosisAngle := a1\<rparr>) = Some d1"
      "near 40 (veinFraction d1) (F a1)" using dbl[OF assms(3)] by blast
  obtain d2 where d2: "calculateFlowSplit_double (p\<lparr>anastomosisAngle := a2\<rparr>) = Some d2"
      "near 40 (veinFraction d2) (F a2)" using dbl[OF a2] by blast
  define s :: real where "s = (1 - 1 / 2 ^ 53) ^ 40"
  have s: "0 < s" unfolding s_def by simp
  have u2: "veinFraction d2 * s \<le> F a2" using d2(2) by (simp add: near_def s_def)
  have l1: "F a1 * s \<le> veinFraction d1" using d1(2) by (simp add: near_def s_def)
  have p2: "0 < veinFraction d2" using near_pos[OF d2(2)] .
  have "veinFraction d2 * s * s \<le> F a2 * s" using u2 s by (intro mult_right_mono) simp_all
  also have "\<dots> < F a1 * s" using strict s by simp
  also have "\<dots> \<le> veinFraction d1" using l1 .
  finally have main: "veinFraction d2 * (s * s) < veinFraction d1" by (simp add: mult.assoc)
  have "s * s = (1 - 1 / 2 ^ 53) ^ 80" by (simp add: s_def power_add[symmetric])
  moreover have "(1 - 1 / 2 ^ 46 :: real) \<le> 1 - real 80 / 2 ^ 53" by simp
  moreover have "1 - real 80 / 2 ^ 53 \<le> (1 - 1 / 2 ^ 53 :: real) ^ 80" by (rule sigma_power_lower)
  ultimately have "1 - 1 / 2 ^ 46 \<le> s * s" by linarith
  then have "veinFraction d2 * (1 - 1 / 2 ^ 46) \<le> veinFraction d2 * (s * s)"
    using p2 by (intro mult_left_mono) simp_all
  then have "veinFraction d2 * (1 - 1 / 2 ^ 46) < veinFraction d1" using main by linarith
  then have double: "\<exists>d1 d2. calculateFlowSplit_double (p\<lparr>anastomosisAngle := a1\<rparr>) = Some d1 \<and>
                  calculateFlowSplit_double (p\<lparr>anastomosisAngle := a2\<rparr>) = Some d2 \<and>
                  veinFraction d2 * (1 - 1 / 2 ^ 46) < veinFraction d1"
    using d1(1) d2(1) by blast
  show ?thesis using exact double by (rule conjI)
qed

theorem calculateFlowSplit_veinFraction_decreasing_up_to_rounding_witness:
  "0 < arteryDiameter DEFAULT_PARAMS \<and> 0 < veinDiameter DEFAULT_PARAMS \<and>
   (0::real) < 30 \<and> (30::real) < 60 \<and> (60::real) \<le> 90 \<and>
   (\<exists>f1 f2. calculateFlowSplit (DEFAULT_PARAMS\<lparr>anastomosisAngle := 30\<rparr>) = Some f1 \<and>
            calculateFlowSplit (DEFAULT_PARAMS\<lparr>anastomosisAngle := 60\<rparr>) = Some f2 \<and>
            veinFraction f2 < veinFraction f1) \<and>
   (\<exists>d1 d2. calculateFlowSplit_double (DEFAULT_PARAMS\<lparr>anastomosisAngle := 30\<rparr>) = Some d1 \<and>
            calculateFlowSplit_double (DEFAULT_PARAMS\<lparr>anastomosisAngle := 60\<rparr>) = Some d2 \<and>
            veinFraction d2 * (1 - 1 / 2 ^ 46) < veinFraction d1)"
  using calculateFlowSplit_veinFraction_decreasing_up_to_rounding [of DEFAULT_PARAMS 30 60]
  by (simp add: DEFAULT_PARAMS_def)

section \<open>Pulsatile waveform\<close>

lemma waveformSample_eq:
  assumes "T \<noteq> 0"
  shows "waveformSample T sr n i =
           Some (max (1 + 6 / 10 * (sr / (35 / 100)) * sin (2 * pi * (real i / real n))
                        + 25 / 100 * sin (2 * (2 * pi * (real i / real n)) - 3 / 10)
                        + 1 / 10 * sin (3 * (2 * pi * (real i / real n)) - 6 / 10)) (15 / 100))"
proof -
  have "2 * pi * (real i / real n * T) / T = 2 * pi * (real i / real n)"
    using assms by simp
  then show ?thesis
    unfolding waveformSample_def Let_def fdiv_Some[OF assms] by simp
qed

lemma waveformSample_floor:
  assumes "T \<noteq> 0"
  shows "\<exists>q. waveformSample T sr n i = Some q \<and> 15 / 100 \<le> q"
  unfolding waveformSample_eq[OF assms] by (rule exI, rule conjI, rule refl, rule max.cobounded2)

lemma waveformSample_range:
  assumes "T \<noteq> 0" "0 \<le> sr"
  shows "\<exists>q. waveformSample T sr n i = Some q \<and> 15 / 100 \<le> q \<and> q \<le> 135 / 100 + 6 / 10 * (sr / (35 / 100))"
proof -
  define A where "A = 6 / 10 * (sr / (35 / 100))"
  define x where "x = 2 * pi * (real i / real n)"
  define U where "U = 1 + A * sin x + 25 / 100 * sin (2 * x - 3 / 10) + 1 / 10 * sin (3 * x - 6 / 10)"
  have A: "0 \<le> A" using assms(2) by (simp add: A_def)
  have s1: "A * sin x \<le> A"
    using mult_left_mono[OF sin_le_one[of x] A] by simp
  have U: "U \<le> 135 / 100 + A"
    unfolding U_def using s1 sin_le_one[of "2 * x - 3 / 10"] sin_le_one[of "3 * x - 6 / 10"] by linarith
  have hi: "max U (15 / 100) \<le> 135 / 100 + A" using U A by (intro max.boundedI) linarith+
  have lo: "15 / 100 \<le> max U (15 / 100)" by (rule max.cobounded2)
  have "waveformSample T sr n i = Some (max U (15 / 100))"
    unfolding U_def x_def A_def by (rule waveformSample_eq[OF assms(1)])
  then show ?thesis using hi lo unfolding A_def by blast
qed

lemma generatePulsatileWaveform_normalised:
  assumes hr: "hr \<noteq> 0" and n: "0 < n" and sr: "0 \<le> sr"
  shows "\<exists>w m. traverse (waveformSample (60 / hr) sr n) [0..<n] = Some w \<and> length w = n \<and>
           (\<forall>q\<in>set w. 15 / 100 \<le> q \<and> q \<le> 135 / 100 + 6 / 10 * (sr / (35 / 100))) \<and>
           m = sum_list w / real n \<and>
           generatePulsatileWaveform hr sr n = Some (map (\<lambda>q. q / m) w)"
proof -
  have T: "60 / hr \<noteq> 0" using hr by simp
  obtain w where w: "traverse (waveformSample (60 / hr) sr n) [0..<n] = Some w"
      "length w = length [0..<n]"
      "\<forall>q\<in>set w. 15 / 100 \<le> q \<and> q \<le> 135 / 100 + 6 / 10 * (sr / (35 / 100))"
    using traverse_range[of "[0..<n]" "waveformSample (60 / hr) sr n"
        "\<lambda>q. 15 / 100 \<le> q \<and> q \<le> 135 / 100 + 6 / 10 * (sr / (35 / 100))"]
      waveformSample_range[OF T sr] by blast
  have len: "length w = n" using w(2) by simp
  have ne: "w \<noteq> []" using len n by auto
  define m where "m = sum_list w / real n"
  have lo: "\<forall>q\<in>set w. 15 / 100 \<le> q" using w(3) by blast
  have m: "15 / 100 \<le> m" using sum_list_lower[OF ne lo] len by (simp add: m_def)
  have m0: "m \<noteq> 0" using m by simp
  have nn: "real n \<noteq> 0" using n by simp
  have "traverse (\<lambda>q. fdiv q m) w = Some (map (\<lambda>q. q / m) w)"
    by (rule traverse_Some) (simp add: fdiv_Some[OF m0])
  then have "generatePulsatileWaveform hr sr n = Some (map (\<lambda>q. q / m) w)"
    by (simp only: generatePulsatileWaveform_def fdiv_Some[OF hr] Option.bind.simps w(1)
      reduce_noinit_add[OF ne] len fdiv_Some[OF nn] m_def[symmetric])
  then show ?thesis using w(1,3) len m_def by blast
qed

lemma generatePulsatileWaveform_positive:
  assumes hr: "hr \<noteq> 0" and n: "0 < n"
  shows "\<exists>w. generatePulsatileWaveform hr sr n = Some w \<and> (w \<noteq> [] \<and> (\<forall>x\<in>set w. 0 \<le> x))"
proof -
  have T: "60 / hr \<noteq> 0" using hr by simp
  obtain w where w: "traverse (waveformSample (60 / hr) sr n) [0..<n] = Some w"
      "length w = length [0..<n]" "\<forall>q\<in>set w. 15 / 100 \<le> q"
    using traverse_range[of "[0..<n]" "waveformSample (60 / hr) sr n" "\<lambda>q. 15 / 100 \<le> q"]
      waveformSample_floor[OF T] by blast
  have len: "length w = n" using w(2) by simp
  have ne: "w \<noteq> []" using len n by auto
  define m where "m = sum_list w / real n"
  have m: "15 / 100 \<le> m" using sum_list_lower[OF ne w(3)] len by (simp add: m_def)
  have m0: "m \<noteq> 0" using m by simp
  have nn: "real n \<noteq> 0" using n by simp
  have "traverse (\<lambda>q. fdiv q m) w = Some (map (\<lambda>q. q / m) w)"
    by (rule traverse_Some) (simp add: fdiv_Some[OF m0])
  then have gen: "generatePulsatileWaveform hr sr n = Some (map (\<lambda>q. q / m) w)"
    by (simp only: generatePulsatileWaveform_def fdiv_Some[OF hr] Option.bind.simps w(1)
      reduce_noinit_add[OF ne] len fdiv_Some[OF nn] m_def[symmetric])
  have "0 \<le> q / m" if "q \<in> set w" for q
    using w(3) that m by (intro divide_nonneg_nonneg) force+
  then show ?thesis using gen ne by auto
qed

lemma sin_pi_half_minus: "sin (pi / 2 - x) = cos x"
  by (simp add: sin_diff)

lemma sin_3pi_minus: "sin (3 * pi - x) = sin x"
proof -
  have "3 * pi - x = (pi - x) + 2 * pi" by simp
  then show ?thesis by (simp only: sin_periodic sin_pi_minus)
qed

lemma sin_3pi2_minus: "sin (3 * pi / 2 - x) = - cos x"
proof -
  have "3 * pi / 2 - x = pi + (pi / 2 - x)" by simp
  then show ?thesis by (simp only: sin_periodic_pi2 sin_pi_half_minus)
qed

lemma sin_9pi2_minus: "sin (9 * pi / 2 - x) = cos x"
proof -
  have "9 * pi / 2 - x = ((pi / 2 - x) + 2 * pi) + 2 * pi" by simp
  then show ?thesis by (simp only: sin_periodic sin_pi_half_minus)
qed

lemma sin_3pi2: "sin (3 * pi / 2) = - 1"
  using sin_3pi2_minus[of 0] by simp

lemma waveform_samples_4:
  defines "A \<equiv> 6 / 10 * ((6 / 10) / (35 / 100)) :: real"
  defines "s \<equiv> sin (3 / 10)" and "s' \<equiv> sin (6 / 10)" and "c \<equiv> cos (6 / 10)"
  shows "waveformSample (60 / 75) (6 / 10) 4 0 = Some (max (1 - 25 / 100 * s - 1 / 10 * s') (15 / 100))"
    and "waveformSample (60 / 75) (6 / 10) 4 1 = Some (max (1 + A + 25 / 100 * s - 1 / 10 * c) (15 / 100))"
    and "waveformSample (60 / 75) (6 / 10) 4 2 = Some (max (1 - 25 / 100 * s + 1 / 10 * s') (15 / 100))"
    and "waveformSample (60 / 75) (6 / 10) 4 3 = Some (max (1 - A + 25 / 100 * s + 1 / 10 * c) (15 / 100))"
proof -
  have T: "(60 / 75 :: real) \<noteq> 0" by simp
  have p0: "2 * pi * (real 0 / real 4) = 0" by simp
  have p1: "2 * pi * (real 1 / real 4) = pi / 2" by simp
  have p2: "2 * pi * (real 2 / real 4) = pi" by simp
  have p3: "2 * pi * (real 3 / real 4) = 3 * pi / 2" by simp
  have e1: "2 * (pi / 2) - 3 / 10 = pi - 3 / 10" "3 * (pi / 2) - 6 / 10 = 3 * pi / 2 - 6 / 10" by simp_all
  have e2: "2 * pi - 3 / 10 = 2 * pi - 3 / 10" "3 * pi - 6 / 10 = 3 * pi - 6 / 10" by simp_all
  have e3: "2 * (3 * pi / 2) - 3 / 10 = 3 * pi - 3 / 10" "3 * (3 * pi / 2) - 6 / 10 = 9 * pi / 2 - 6 / 10" by simp_all
  have m: "sin (0 - x) = - sin x" for x :: real by simp
  show "waveformSample (60 / 75) (6 / 10) 4 0 = Some (max (1 - 25 / 100 * s - 1 / 10 * s') (15 / 100))"
    unfolding waveformSample_eq[OF T] p0 s_def s'_def
    by (simp only: mult_zero_right m sin_zero) simp
  show "waveformSample (60 / 75) (6 / 10) 4 1 = Some (max (1 + A + 25 / 100 * s - 1 / 10 * c) (15 / 100))"
    unfolding waveformSample_eq[OF T] p1 e1 sin_pi_minus sin_3pi2_minus sin_pi_half s_def c_def A_def
    by simp
  show "waveformSample (60 / 75) (6 / 10) 4 2 = Some (max (1 - 25 / 100 * s + 1 / 10 * s') (15 / 100))"
    unfolding waveformSample_eq[OF T] p2 sin_2pi_minus sin_3pi_minus sin_pi s_def s'_def
    by simp
  show "waveformSample (60 / 75) (6 / 10) 4 3 = Some (max (1 - A + 25 / 100 * s + 1 / 10 * c) (15 / 100))"
    unfolding waveformSample_eq[OF T] p3 e3 sin_3pi_minus sin_9pi2_minus sin_3pi2 s_def c_def A_def
    by simp
qed

text \<open>
  C1, as stated: for every heart rate in [50, 120], systolic ratio in [0.1, 0.6] and
  positive step count, every element of the sequence returned by generatePulsatileWaveform
  is at least 0.15.  It fails at heart rate 75, systolic ratio 0.6 and four steps: the last
  sample is floored at 0.15, the mean of the floored samples is above 1, and the division
  by that mean takes the sample below 0.15.
\<close>

theorem generatePulsatileWaveform_below_floor:
  "(50::real) \<le> 75 \<and> (75::real) \<le> 120 \<and> (1 / 10 :: real) \<le> 6 / 10 \<and> (6 / 10 :: real) \<le> 6 / 10 \<and>
   (0::nat) < 4 \<and>
   generatePulsatileWaveform 75 (6 / 10) 4 \<noteq> None \<and>
   the (generatePulsatileWaveform 75 (6 / 10) 4) ! 3 < 15 / 100"
proof -
  define A :: real where "A = 6 / 10 * ((6 / 10) / (35 / 100))"
  define s s' c :: real where "s = sin (3 / 10)" and "s' = sin (6 / 10)" and "c = cos (6 / 10)"
  define q0 where "q0 = max (1 - 25 / 100 * s - 1 / 10 * s') (15 / 100)"
  define q1 where "q1 = max (1 + A + 25 / 100 * s - 1 / 10 * c) (15 / 100)"
  define q2 where "q2 = max (1 - 25 / 100 * s + 1 / 10 * s') (15 / 100)"
  define q3 where "q3 = max (1 - A + 25 / 100 * s + 1 / 10 * c) (15 / 100)"
  have A: "A = 36 / 35" by (simp add: A_def)
  have s: "s \<le> 3 / 10" unfolding s_def by (rule sin_x_le_x) simp
  have c: "c \<le> 1" unfolding c_def by (rule cos_le_one)
  have q3: "q3 = 15 / 100" unfolding q3_def using s c A by (intro max_absorb2) linarith
  have "1 - 25 / 100 * s - 1 / 10 * s' \<le> q0" "1 + A + 25 / 100 * s - 1 / 10 * c \<le> q1"
    "1 - 25 / 100 * s + 1 / 10 * s' \<le> q2"
    unfolding q0_def q1_def q2_def by (rule max.cobounded1)+
  then have total: "4 < q0 + q1 + q2 + q3" using s c A q3 by linarith
  have upt: "[0..<4] = [0, 1, 2, Suc 2]" by (simp add: upt_rec)
  have tr: "traverse (waveformSample (60 / 75) (6 / 10) 4) [0..<4] = Some [q0, q1, q2, q3]"
    unfolding upt using waveform_samples_4
    by (simp add: q0_def q1_def q2_def q3_def A_def s_def s'_def c_def eval_nat_numeral)
  obtain w m where w: "traverse (waveformSample (60 / 75) (6 / 10) 4) [0..<4] = Some w"
      "m = sum_list w / real 4"
      "generatePulsatileWaveform 75 (6 / 10) 4 = Some (map (\<lambda>q. q / m) w)"
    using generatePulsatileWaveform_normalised[of 75 4 "6 / 10"] by auto
  have weq: "w = [q0, q1, q2, q3]" using w(1) tr by simp
  have m: "1 < m" using total by (simp add: w(2) weq)
  have "q3 / m < q3 / 1" using m q3 by (intro divide_strict_left_mono) simp_all
  then have "q3 / m < 15 / 100" using q3 by simp
  moreover have "the (generatePulsatileWaveform 75 (6 / 10) 4) ! 3 = q3 / m"
  proof -
    have "[a, b, d, e] ! 3 = e" for a b d e :: real by (simp add: eval_nat_numeral)
    then show ?thesis unfolding w(3) weq by simp
  qed
  ultimately show ?thesis using w(3) by simp
qed

text \<open>
  C1, amended.  For every heart rate in [50, 120], systolic ratio in [0.1, 0.6] and positive
  step count, generatePulsatileWaveform returns a sequence of that length whose mean is 1
  (exactly, in real arithmetic) and whose elements are all positive, at least 0.06.  The
  floor of 0.15 holds for the samples before the division by their mean, not after it.
\<close>

theorem generatePulsatileWaveform_mean_one_positive:
  assumes "50 \<le> hr" "hr \<le> 120" "1 / 10 \<le> sr" "sr \<le> 6 / 10" "0 < n"
  shows "\<exists>w. generatePulsatileWaveform hr sr n = Some w \<and> length w = n \<and>
           sum_list w / real (length w) = 1 \<and> (\<forall>x\<in>set w. 6 / 100 \<le> x)"
proof -
  have hr: "hr \<noteq> 0" and sr: "0 \<le> sr" using assms by simp_all
  obtain w m where w: "length w = n"
      "\<forall>q\<in>set w. 15 / 100 \<le> q \<and> q \<le> 135 / 100 + 6 / 10 * (sr / (35 / 100))"
      "m = sum_list w / real n"
      "generatePulsatileWaveform hr sr n = Some (map (\<lambda>q. q / m) w)"
    using generatePulsatileWaveform_normalised[OF hr assms(5) sr] by blast
  have ne: "w \<noteq> []" using w(1) assms(5) by auto
  have hi: "135 / 100 + 6 / 10 * (sr / (35 / 100)) \<le> 25 / 10" using assms(4) by simp
  have lo: "\<forall>q\<in>set w. 15 / 100 \<le> q" and up: "\<forall>q\<in>set w. q \<le> 25 / 10"
    using w(2) hi by force+
  have mlo: "15 / 100 \<le> m" and mhi: "m \<le> 25 / 10"
    using sum_list_lower[OF ne lo] sum_list_upper[OF ne up] w(1,3) by simp_all
  have mpos: "0 < m" using mlo by simp
  have "sum_list (map (\<lambda>q. q / m) w) = sum_list w / m"
    by (rule sum_list_map_divide)
  also have "\<dots> = real n"
  proof -
    have "sum_list w = m * real n" using assms(5) by (simp add: w(3))
    then show ?thesis using mpos by simp
  qed
  finally have mean: "sum_list (map (\<lambda>q. q / m) w) / real (length (map (\<lambda>q. q / m) w)) = 1"
    using assms(5) w(1) by simp
  have "6 / 100 \<le> q / m" if "q \<in> set w" for q
  proof -
    have q: "15 / 100 \<le> q" using w(2) that by blast
    have "6 / 100 * m \<le> 6 / 100 * (25 / 10)" using mhi by simp
    also have "\<dots> \<le> q" using q by simp
    finally show ?thesis using mpos by (simp add: field_simps)
  qed
  then have all: "\<forall>x\<in>set (map (\<lambda>q. q / m) w). 6 / 100 \<le> x" by auto
  have len': "length (map (\<lambda>q. q / m) w) = n" using w(1) by simp
  show ?thesis by (intro exI[of _ "map (\<lambda>q. q / m) w"] conjI w(4) len' mean all)
qed

theorem generatePulsatileWaveform_mean_one_positive_witness:
  "(50::real) \<le> 75 \<and> (75::real) \<le> 120 \<and> (1 / 10 :: real) \<le> 35 / 100 \<and>
   (35 / 100 :: real) \<le> 6 / 10 \<and> (0::nat) < 20 \<and>
   (\<exists>w. generatePulsatileWaveform 75 (35 / 100) 20 = Some w \<and> length w = 20 \<and>
        sum_list w / real (length w) = 1 \<and> (\<forall>x\<in>set w. 6 / 100 \<le> x))"
  using generatePulsatileWaveform_mean_one_positive [of 75 "35 / 100" 20] by simp

section \<open>Geometry\<close>

lemma cubicBezierTangent_Some:
  assumes t: "0 \<le> t" "t \<le> 1"
    and x1: "px p1 - px p0 \<le> 0" and x2: "px p2 - px p1 \<le> 0" and x3: "px p3 - px p2 < 0"
    and y1: "py p1 - py p0 < 0"
  shows "\<exists>n. cubicBezierTangent t p0 p1 p2 p3 = Some n"
proof -
  define dx where "dx = 3 * ((1 - t) * (1 - t)) * (px p1 - px p0) + 6 * (1 - t) * t * (px p2 - px p1)
                         + 3 * (t * t) * (px p3 - px p2)"
  define dy where "dy = 3 * ((1 - t) * (1 - t)) * (py p1 - py p0) + 6 * (1 - t) * t * (py p2 - py p1)
                         + 3 * (t * t) * (py p3 - py p2)"
  have a: "3 * ((1 - t) * (1 - t)) * (px p1 - px p0) \<le> 0"
    using x1 by (intro mult_nonneg_nonpos) simp_all
  have b: "6 * (1 - t) * t * (px p2 - px p1) \<le> 0"
    using x2 t by (intro mult_nonneg_nonpos) simp_all
  have nz: "dx \<noteq> 0 \<or> dy \<noteq> 0"
  proof (cases "t = 0")
    case True
    then have "dy = 3 * (py p1 - py p0)" by (simp add: dy_def)
    then show ?thesis using y1 by simp
  next
    case False
    then have "0 < t * t" using t by simp
    then have "3 * (t * t) * (px p3 - px p2) < 0" using x3 by (intro mult_pos_neg) simp_all
    then have "dx < 0" unfolding dx_def using a b by linarith
    then show ?thesis by simp
  qed
  then have "dx ^ 2 + dy ^ 2 \<noteq> 0" by (simp add: sum_power2_eq_zero_iff)
  then have len: "sqrt (dx ^ 2 + dy ^ 2) \<noteq> 0" by simp
  show ?thesis
    unfolding cubicBezierTangent_def Let_def dx_def[symmetric] dy_def[symmetric] fdiv_Some[OF len]
    by simp
qed

lemma length_filter_enumerate_snd:
  "length (filter (\<lambda>ip. Q (snd ip)) (enumerate n xs)) = length (filter Q xs)"
  by (induction xs arbitrary: n) simp_all

lemma length_filter_enumerate_fst:
  "length (filter (\<lambda>ip. \<not> fst ip < k) (enumerate n xs)) = length xs - (k - n)"
  by (induction xs arbitrary: n) (auto simp: Suc_diff_le)

lemma traverse_pushed:
  assumes "\<And>a. a \<in> set as \<Longrightarrow> \<exists>r. f a = Some r \<and> (r = None \<longleftrightarrow> skip a) \<and> (\<forall>w. r = Some w \<longrightarrow> P w)"
  shows "\<exists>rs. traverse f as = Some rs \<and> (\<forall>w\<in>set (pushed rs). P w) \<and>
           length (pushed rs) = length (filter (\<lambda>a. \<not> skip a) as)"
  using assms
proof (induction as)
  case Nil
  then show ?case by (simp add: pushed_def)
next
  case (Cons a as)
  obtain r where r: "f a = Some r" "r = None \<longleftrightarrow> skip a" "\<forall>w. r = Some w \<longrightarrow> P w"
    using Cons.prems[of a] by auto
  obtain rs where rs: "traverse f as = Some rs" "\<forall>w\<in>set (pushed rs). P w"
      "length (pushed rs) = length (filter (\<lambda>a. \<not> skip a) as)"
    using Cons.IH Cons.prems by auto
  have "pushed (r # rs) = (case r of None \<Rightarrow> [] | Some w \<Rightarrow> [w]) @ pushed rs"
    by (simp add: pushed_def)
  then show ?case using r rs by (cases r) auto
qed

lemma param_in_unit:
  assumes "2 \<le> n" "i < n"
  shows "real n - 1 \<noteq> 0" "0 \<le> real i / (real n - 1)" "real i / (real n - 1) \<le> 1"
proof -
  have n: "0 < real n - 1" using assms(1) by simp
  then show "real n - 1 \<noteq> 0" by simp
  show "0 \<le> real i / (real n - 1)" using n by simp
  have "real i \<le> real n - 1" using assms(2) by linarith
  then show "real i / (real n - 1) \<le> 1" using n by simp
qed

lemma enumerate_index: "ip \<in> set (enumerate 0 xs) \<Longrightarrow> fst ip < length xs"
  by (cases ip) (simp add: in_set_enumerate_eq)

lemma arteryUpperPoint_ok:
  assumes "2 \<le> length au" "ip \<in> set (enumerate 0 au)"
  shows "\<exists>r. arteryUpperPoint au cx cy ar ip = Some r \<and>
           (r = None \<longleftrightarrow> py (snd ip) > cy - ar + 5) \<and>
           (\<forall>w. r = Some w \<longrightarrow> 0 \<le> paramPosition w \<and> paramPosition w \<le> 1)"
proof -
  obtain i p where ip: "ip = (i, p)" by (cases ip)
  have i: "i < length au" using enumerate_index[OF assms(2)] ip by simp
  note u = param_in_unit[OF assms(1) i]
  show ?thesis unfolding ip arteryUpperPoint_def using u(2,3)
    by (simp add: fdiv_Some[OF u(1)] Let_def)
qed

lemma toePoint_ok:
  assumes "2 \<le> length tc" "ip \<in> set (enumerate 0 tc)"
  shows "\<exists>r. toePoint tc ip = Some r \<and> (r = None \<longleftrightarrow> False) \<and>
           (\<forall>w. r = Some w \<longrightarrow> 0 \<le> paramPosition w \<and> paramPosition w \<le> 1)"
proof -
  obtain i p where ip: "ip = (i, p)" by (cases ip)
  have i: "i < length tc" using enumerate_index[OF assms(2)] ip by simp
  note u = param_in_unit[OF assms(1) i]
  show ?thesis unfolding ip toePoint_def using u(2,3)
    by (simp add: fdiv_Some[OF u(1)])
qed

lemma arteryLowerPoint_ok:
  assumes "2 \<le> length al" "ip \<in> set (enumerate 0 al)"
  shows "\<exists>r. arteryLowerPoint al cx ar ip = Some r \<and> (r = None \<longleftrightarrow> False) \<and>
           (\<forall>w. r = Some w \<longrightarrow> 0 \<le> paramPosition w \<and> paramPosition w \<le> 1)"
proof -
  obtain i p where ip: "ip = (i, p)" by (cases ip)
  have i: "i < length al" using enumerate_index[OF assms(2)] ip by simp
  note u = param_in_unit[OF assms(1) i]
  show ?thesis unfolding ip arteryLowerPoint_def using u(2,3)
    by (simp add: fdiv_Some[OF u(1)] Let_def)
qed

lemma veinOuterPoint_ok:
  assumes "2 \<le> length vo" "length vo \<le> length vn" "ip \<in> set (enumerate 0 vo)"
  shows "\<exists>r. veinOuterPoint vo vn ip = Some r \<and> (r = None \<longleftrightarrow> fst ip < 3) \<and>
           (\<forall>w. r = Some w \<longrightarrow> 0 \<le> paramPosition w \<and> paramPosition w \<le> 1)"
proof -
  obtain i p where ip: "ip = (i, p)" by (cases ip)
  have i: "i < length vo" using enumerate_index[OF assms(3)] ip by simp
  then have n: "nth_opt vn i = Some (vn ! i)" using assms(2) by (simp add: nth_opt_def)
  note u = param_in_unit[OF assms(1) i]
  show ?thesis unfolding ip veinOuterPoint_def using u(2,3)
    by (simp add: fdiv_Some[OF u(1)] n)
qed

lemma veinInnerPoint_ok:
  assumes "2 \<le> length vi" "length vi \<le> length vn" "ip \<in> set (enumerate 0 vi)"
  shows "\<exists>r. veinInnerPoint vi vn ip = Some r \<and> (r = None \<longleftrightarrow> fst ip < 3) \<and>
           (\<forall>w. r = Some w \<longrightarrow> 0 \<le> paramPosition w \<and> paramPosition w \<le> 1)"
proof -
  obtain i p where ip: "ip = (i, p)" by (cases ip)
  have i: "i < length vi" using enumerate_index[OF assms(3)] ip by simp
  then have n: "nth_opt vn i = Some (vn ! i)" using assms(2) by (simp add: nth_opt_def)
  note u = param_in_unit[OF assms(1) i]
  show ?thesis unfolding ip veinInnerPoint_def using u(2,3)
    by (simp add: fdiv_Some[OF u(1)] n)
qed

lemma generateWallPoints_ok:
  assumes "2 \<le> length au" "2 \<le> length tc" "2 \<le> length al" "2 \<le> length vo" "2 \<le> length vi"
    and "length vo \<le> length vn" "length vi \<le> length vn"
  shows "\<exists>wps. generateWallPoints au al vo vi vn tc cx cy ar ang = Some wps \<and>
           (\<forall>w\<in>set wps. 0 \<le> paramPosition w \<and> paramPosition w \<le> 1) \<and>
           length wps = length (filter (\<lambda>p. \<not> py p > cy - ar + 5) au) + length tc + length al
                          + (length vo - 3) + (length vi - 3)"
proof -
  let ?P = "\<lambda>w. 0 \<le> paramPosition w \<and> paramPosition w \<le> 1"
  obtain upper where upper: "traverse (arteryUpperPoint au cx cy ar) (enumerate 0 au) = Some upper"
      "\<forall>w\<in>set (pushed upper). ?P w"
      "length (pushed upper) = length (filter (\<lambda>ip. \<not> py (snd ip) > cy - ar + 5) (enumerate 0 au))"
    using traverse_pushed[of "enumerate 0 au" "arteryUpperPoint au cx cy ar"
        "\<lambda>ip. py (snd ip) > cy - ar + 5" ?P] arteryUpperPoint_ok[OF assms(1)] by blast
  obtain toe where toe: "traverse (toePoint tc) (enumerate 0 tc) = Some toe"
      "\<forall>w\<in>set (pushed toe). ?P w"
      "length (pushed toe) = length (filter (\<lambda>ip. \<not> False) (enumerate 0 tc))"
    using traverse_pushed[of "enumerate 0 tc" "toePoint tc" "\<lambda>ip. False" ?P]
      toePoint_ok[OF assms(2)] by blast
  obtain lower where lower: "traverse (arteryLowerPoint al cx ar) (enumerate 0 al) = Some lower"
      "\<forall>w\<in>set (pushed lower). ?P w"
      "length (pushed lower) = length (filter (\<lambda>ip. \<not> False) (enumerate 0 al))"
    using traverse_pushed[of "enumerate 0 al" "arteryLowerPoint al cx ar" "\<lambda>ip. False" ?P]
      arteryLowerPoint_ok[OF assms(3)] by blast
  obtain outer where outer: "traverse (veinOuterPoint vo vn) (enumerate 0 vo) = Some outer"
      "\<forall>w\<in>set (pushed outer). ?P w"
      "length (pushed outer) = length (filter (\<lambda>ip. \<not> fst ip < 3) (enumerate 0 vo))"
    using traverse_pushed[of "enumerate 0 vo" "veinOuterPoint vo vn" "\<lambda>ip. fst ip < 3" ?P]
      veinOuterPoint_ok[OF assms(4,6)] by blast
  obtain inner where inner: "traverse (veinInnerPoint vi vn) (enumerate 0 vi) = Some inner"
      "\<forall>w\<in>set (pushed inner). ?P w"
      "length (pushed inner) = length (filter (\<lambda>ip. \<not> fst ip < 3) (enumerate 0 vi))"
    using traverse_pushed[of "enumerate 0 vi" "veinInnerPoint vi vn" "\<lambda>ip. fst ip < 3" ?P]
      veinInnerPoint_ok[OF assms(5,7)] by blast
  let ?wps = "pushed upper @ pushed toe @ pushed lower @ pushed outer @ pushed inner"
  have gen: "generateWallPoints au al vo vi vn tc cx cy ar ang = Some ?wps"
    by (simp add: generateWallPoints_def upper(1) toe(1) lower(1) outer(1) inner(1))
  have all: "\<forall>w\<in>set ?wps. ?P w"
    using upper(2) toe(2) lower(2) outer(2) inner(2) by auto
  have len: "length ?wps = length (filter (\<lambda>p. \<not> py p > cy - ar + 5) au) + length tc + length al
                          + (length vo - 3) + (length vi - 3)"
    using upper(3) toe(3) lower(3) outer(3) inner(3)
    by (simp add: length_filter_enumerate_snd[of "\<lambda>p. \<not> py p > cy - ar + 5"]
        length_filter_enumerate_fst)
  show ?thesis using gen all len by blast
qed

lemma veinSamples_ok:
  assumes x1: "px p1 - px p0 \<le> 0" and x2: "px p2 - px p1 \<le> 0" and x3: "px p3 - px p2 < 0"
    and y1: "py p1 - py p0 < 0"
  shows "\<exists>ss. traverse (veinSample 50 p0 p1 p2 p3) [0..<50] = Some ss \<and> length ss = 50"
proof -
  have "\<exists>b. veinSample 50 p0 p1 p2 p3 i = Some b \<and> True" if "i \<in> set [0..<50]" for i
  proof -
    have i: "i < 50" using that by simp
    have "0 \<le> real i / (real 50 - 1)" "real i / (real 50 - 1) \<le> 1"
      using param_in_unit(2,3)[of 50 i] i by simp_all
    then obtain n where "cubicBezierTangent (real i / (real 50 - 1)) p0 p1 p2 p3 = Some n"
      using cubicBezierTangent_Some[OF _ _ x1 x2 x3 y1] by blast
    then show ?thesis by (simp add: veinSample_def)
  qed
  from traverse_range[of "[0..<50]" "veinSample 50 p0 p1 p2 p3" "\<lambda>_. True", OF this]
  show ?thesis by simp
qed

lemma generateSmoothConnection_ok:
  assumes "vw \<noteq> []"
  shows "\<exists>tc. generateSmoothConnection aw vw cx ty 15 = Some tc \<and> length tc = 16"
proof -
  have n: "nth_opt vw (min 5 (length vw - 1)) = Some (vw ! min 5 (length vw - 1))"
  proof -
    have "0 < length vw" using assms by simp
    then have "min 5 (length vw - 1) < length vw" by linarith
    then show ?thesis by (simp add: nth_opt_def)
  qed
  let ?f = "\<lambda>i. do { t \<leftarrow> fdiv (real i) (real 15);
                     Some (cubicBezier t \<lparr>px = cx + 5, py = ty\<rparr> 
                       \<lparr>px = px \<lparr>px = cx + 5, py = ty\<rparr> + 20, py = py \<lparr>px = cx + 5, py = ty\<rparr>\<rparr>
                       \<lparr>px = px (vw ! min 5 (length vw - 1)) + 10, py = py (vw ! min 5 (length vw - 1)) + 10\<rparr>
                       (vw ! min 5 (length vw - 1))) }"
  have "\<exists>tc. traverse ?f [0..<15 + 1] = Some tc \<and> length tc = length [0..<15 + 1] \<and> (\<forall>b\<in>set tc. True)"
    by (rule traverse_range) (simp add: fdiv_def)
  then show ?thesis
    unfolding generateSmoothConnection_def n Let_def by simp
qed

lemma modifyArteryWallForAnastomosis_ok:
  assumes "sin ang \<noteq> 0"
  shows "\<exists>m. modifyArteryWallForAnastomosis uw cx vr ang ar = Some m \<and> length m = length uw"
  unfolding modifyArteryWallForAnastomosis_def fdiv_Some[OF assms] by simp

lemma angleRad_range:
  assumes "0 < angle" "angle \<le> 90"
  shows "0 < sin ((angle * pi) / 180)" "0 \<le> cos ((angle * pi) / 180)"
    "0 < (angle * pi) / 180" "(angle * pi) / 180 \<le> pi / 2"
proof -
  show pos: "0 < (angle * pi) / 180" using assms(1) by simp
  have "angle * pi \<le> 90 * pi" using assms(2) by simp
  then show le: "(angle * pi) / 180 \<le> pi / 2" by simp
  have "(angle * pi) / 180 < pi" using le pi_gt_zero by linarith
  then show "0 < sin ((angle * pi) / 180)" using pos by (intro sin_gt_zero)
  show "0 \<le> cos ((angle * pi) / 180)" using pos le by (intro cos_ge_zero) linarith+
qed

lemma generateGeometry_ok:
  assumes "0 < angle" "angle \<le> 90"
  shows "\<exists>g. generateGeometry ad vd angle = Some g \<and>
           ((\<forall>w\<in>set (wallPoints g). 0 \<le> paramPosition w \<and> paramPosition w \<le> 1) \<and>
            length (arteryUpperWall g) = 60 \<and>
            length (wallPoints g) =
              length (filter (\<lambda>p. \<not> py p > CANVAS_height * 0.65 - (ad / 2) * CANVAS_vesselScale + 5)
                        (arteryUpperWall g)) + 170)"
  unfolding generateGeometry_def Let_def
  apply (rule bind_exI)
   apply (rule veinSamples_ok)
  subgoal using angleRad_range(2)[OF assms] by simp
  subgoal using cos_le_one[of "(angle * pi) / 180"] by simp
  subgoal by simp
  subgoal using angleRad_range(1)[OF assms] by simp
  apply (rule bind_exI)
   apply (rule generateSmoothConnection_ok)
  subgoal for ss by (cases ss) simp_all
  apply (rule bind_exI)
   apply (rule modifyArteryWallForAnastomosis_ok)
  subgoal using angleRad_range(1)[OF assms] by simp
  apply (rule bind_exI)
   apply (rule generateWallPoints_ok)
  subgoal by simp
  subgoal by simp
  subgoal by simp
  subgoal by simp
  subgoal by simp
  subgoal by simp
  subgoal by simp
  subgoal by simp
  done

lemma regionType_closed:
  "r \<in> {proximal_artery, distal_artery, vein_outer, vein_inner, anastomosis_toe,
         anastomosis_heel, anastomosis_floor, anastomosis_outer}"
  by (cases r) simp_all

text \<open>
  C7.  generateGeometry is total at an anastomosis angle of 90 degrees and at the angles
  near it, such as 89.9 degrees, for all positive diameters: a result \<open>Some g\<close> says that
  every division of the run had a divisor other than zero, the division by sin(angle) of the
  opening width and the divisions by the length of the Bezier tangent among them.  It holds
  for every angle in (0, 90].
\<close>

theorem generateGeometry_total:
  assumes "0 < ad" "0 < vd" "0 < angle" "angle \<le> 90"
  shows "\<exists>g. generateGeometry ad vd angle = Some g"
  using generateGeometry_ok[OF assms(3,4), of ad vd] by blast

theorem generateGeometry_total_witness:
  "(\<exists>g. generateGeometry 4 4 90 = Some g) \<and> (\<exists>g. generateGeometry 4 4 (899 / 10) = Some g)"
  using generateGeometry_total [of 4 4 90] generateGeometry_total [of 4 4 "899 / 10"] by simp

text \<open>
  C6.  For every positive artery diameter, positive vein diameter and anastomosis angle in
  (0, 90], every wall point of generateGeometry has its paramPosition in [0, 1] and a region
  among the eight tags, and the number of wall points is determined by the inputs: 16 toe
  points, 60 lower-wall points, 47 points on each vein wall, and the upper-wall samples that
  are not lowered by more than 5 into the opening; between 170 and 230 in all.
\<close>

theorem generateGeometry_wallPoints:
  assumes "0 < ad" "0 < vd" "0 < angle" "angle \<le> 90"
  shows "\<exists>g. generateGeometry ad vd angle = Some g \<and>
           (\<forall>w\<in>set (wallPoints g).
              0 \<le> paramPosition w \<and> paramPosition w \<le> 1 \<and>
              regionType w \<in> {proximal_artery, distal_artery, vein_outer, vein_inner,
                 anastomosis_toe, anastomosis_heel, anastomosis_floor, anastomosis_outer}) \<and>
           length (wallPoints g) =
             170 + length (filter (\<lambda>p. py p \<le> 325 - 14 * ad + 5) (arteryUpperWall g)) \<and>
           170 \<le> length (wallPoints g) \<and> length (wallPoints g) \<le> 230"
proof -
  obtain g where g: "generateGeometry ad vd angle = Some g"
      "\<forall>w\<in>set (wallPoints g). 0 \<le> paramPosition w \<and> paramPosition w \<le> 1"
      "length (arteryUpperWall g) = 60"
      "length (wallPoints g) =
         length (filter (\<lambda>p. \<not> py p > CANVAS_height * 0.65 - (ad / 2) * CANVAS_vesselScale + 5)
                   (arteryUpperWall g)) + 170"
    using generateGeometry_ok[OF assms(3,4), of ad vd] by blast
  have c: "CANVAS_height * 0.65 - (ad / 2) * CANVAS_vesselScale + 5 = 325 - 14 * ad + 5"
    by (simp add: CANVAS_height_def CANVAS_vesselScale_def)
  have p: "(\<lambda>p. \<not> py p > 325 - 14 * ad + 5) = (\<lambda>p. py p \<le> 325 - 14 * ad + 5)"
    by (simp add: not_less)
  have len: "length (wallPoints g) =
      170 + length (filter (\<lambda>p. py p \<le> 325 - 14 * ad + 5) (arteryUpperWall g))"
    using g(4) unfolding c p by simp
  have "length (filter (\<lambda>p. py p \<le> 325 - 14 * ad + 5) (arteryUpperWall g)) \<le> 60"
    using length_filter_le[of _ "arteryUpperWall g"] g(3) by simp
  then have b: "170 \<le> length (wallPoints g)" "length (wallPoints g) \<le> 230"
    using len by simp_all
  have r: "\<forall>w\<in>set (wallPoints g).
              0 \<le> paramPosition w \<and> paramPosition w \<le> 1 \<and>
              regionType w \<in> {proximal_artery, distal_artery, vein_outer, vein_inner,
                 anastomosis_toe, anastomosis_heel, anastomosis_floor, anastomosis_outer}"
    using g(2) regionType_closed by blast
  show ?thesis using g(1) r len b by blast
qed

theorem generateGeometry_wallPoints_witness:
  "\<exists>g. generateGeometry 4 4 45 = Some g \<and>
       (\<forall>w\<in>set (wallPoints g).
          0 \<le> paramPosition w \<and> paramPosition w \<le> 1 \<and>
          regionType w \<in> {proximal_artery, distal_artery, vein_outer, vein_inner,
             anastomosis_toe, anastomosis_heel, anastomosis_floor, anastomosis_outer}) \<and>
       length (wallPoints g) =
         170 + length (filter (\<lambda>p. py p \<le> 325 - 14 * 4 + 5) (arteryUpperWall g)) \<and>
       170 \<le> length (wallPoints g) \<and> length (wallPoints g) \<le> 230"
  using generateGeometry_wallPoints [of 4 4 45] by simp

section \<open>Oscillatory shear index\<close>

lemma foldl_sq_nonneg: "0 \<le> a \<Longrightarrow> 0 \<le> foldl (\<lambda>a b. a + (b - m) ^ 2) (a::real) xs"
  by (induction xs arbitrary: a) simp_all

lemma foldl_osiStep_fst: "a \<le> fst (foldl (osiStep n r) (a, b) xs)"
proof (induction xs arbitrary: a b)
  case Nil
  then show ?case by simp
next
  case (Cons x xs)
  obtain i w where x: "x = (i, w)" by (cases x)
  have "osiStep n r (a, b) (i, w) = (a + \<bar>w\<bar>, snd (osiStep n r (a, b) (i, w)))"
    by (simp add: osiStep_def Let_def)
  then have "a + \<bar>w\<bar> \<le> fst (foldl (osiStep n r) (osiStep n r (a, b) (i, w)) xs)"
    using Cons.IH[of "a + \<bar>w\<bar>" "snd (osiStep n r (a, b) (i, w))"] by simp
  then show ?case unfolding x by simp
qed

lemma calculateOSI_unidirectional:
  assumes nr: "\<not> (region = anastomosis_floor \<or> (region = vein_inner \<and> ang > pi / 6))"
    and ne: "wss \<noteq> []" and pos: "\<forall>w\<in>set wss. 0 \<le> w"
  shows "\<exists>v. calculateOSI wss region ang = Some v \<and> 5 / 100 \<le> v \<and> v \<le> 15 / 100"
proof -
  define n where "n = real (length wss)"
  have n: "0 < n" using ne by (simp add: n_def)
  have n0: "real (length wss) \<noteq> 0" using ne by simp
  define mean where "mean = sum_list wss / real (length wss)"
  have "0 \<le> sum_list wss" using pos by (intro sum_list_nonneg) simp
  then have mean: "0 \<le> mean" unfolding mean_def by (intro divide_nonneg_nonneg) simp_all
  define var where "var = foldl (\<lambda>a b. a + (b - mean) ^ 2) 0 wss / real (length wss)"
  have var: "0 \<le> var" unfolding var_def using foldl_sq_nonneg[of 0 mean wss] by simp
  have d: "mean + 1 / 10 ^ 10 \<noteq> 0"
  proof -
    have "0 < mean + 1 / 10 ^ 10" using mean by (intro add_nonneg_pos) simp_all
    then show ?thesis by linarith
  qed
  define cv where "cv = sqrt var / (mean + 1 / 10 ^ 10)"
  have cv: "0 \<le> cv" unfolding cv_def using var mean by (intro divide_nonneg_nonneg) simp_all
  have eq: "calculateOSI wss region ang = Some (min (0.05 + cv * 0.1) 0.15)"
    unfolding calculateOSI_def Let_def using nr
    by (simp only: if_True simp_thms reduce_noinit_add[OF ne] fdiv_Some[OF n0] Option.bind.simps
        mean_def[symmetric] var_def[symmetric] fdiv_Some[OF d] cv_def[symmetric])
  have "5 / 100 \<le> min (0.05 + cv * 0.1) 0.15" using cv by (intro min.boundedI) simp_all
  moreover have "min (0.05 + cv * 0.1) 0.15 \<le> 15 / 100" by (intro min.coboundedI2) simp
  ultimately show ?thesis using eq by blast
qed

lemma calculateOSI_recirculating:
  assumes "region = anastomosis_floor \<or> (region = vein_inner \<and> ang > pi / 6)"
  shows "\<exists>v. calculateOSI wss region ang = Some v \<and> 0 \<le> v \<and> v \<le> 1 / 2"
proof -
  define tot where "tot = foldl (osiStep (length wss) (0.3 + 0.4 * sin ang)) (0, 0) (enumerate 0 wss)"
  have "0 \<le> fst tot" unfolding tot_def by (rule foldl_osiStep_fst)
  then have "0 < fst tot + 1 / 10 ^ 10" by (intro add_nonneg_pos) simp_all
  then have d: "fst tot + 1 / 10 ^ 10 \<noteq> 0" by linarith
  define v where "v = 0.5 * (1 - \<bar>snd tot\<bar> / (fst tot + 1 / 10 ^ 10))"
  have eq: "calculateOSI wss region ang = Some (min (max v 0) 0.5)"
    unfolding calculateOSI_def Let_def using assms
    by (simp only: simp_thms if_False tot_def[symmetric] fdiv_Some[OF d] Option.bind.simps
        v_def[symmetric])
  have "0 \<le> min (max v 0) 0.5" by (intro min.boundedI) simp_all
  moreover have "min (max v 0) 0.5 \<le> 1 / 2" by (intro min.coboundedI2) simp
  ultimately show ?thesis using eq by blast
qed

lemma getRegionCorrectionFactor_ok:
  assumes "0 \<le> sin ang" "0 \<le> cos (ang / 2)" "0 < ratio"
  shows "\<exists>c. getRegionCorrectionFactor region ang ratio = Some c \<and> 0 \<le> c"
proof (cases region)
  case anastomosis_outer
  have "0 \<le> 2 * sin ang * sqrt ratio" using assms by (intro mult_nonneg_nonneg) simp_all
  then show ?thesis using anastomosis_outer assms(3)
    by (simp add: getRegionCorrectionFactor_def fsqrt_def)
next
  case anastomosis_floor
  have p: "0 < ratio powr 0.3" using assms(3) by simp
  then have d: "ratio powr 0.3 \<noteq> 0" by linarith
  have "sin (ang / 2) \<le> 2" using sin_le_one[of "ang / 2"] by linarith
  then have "0 \<le> 0.15 * (1 - 0.5 * sin (ang / 2))" by simp
  then have "0 \<le> 0.15 * (1 - 0.5 * sin (ang / 2)) / (ratio powr 0.3)"
    using p by (intro divide_nonneg_nonneg) linarith+
  moreover have "\<not> ratio < 0" using assms(3) by simp
  then have "getRegionCorrectionFactor region ang ratio =
               Some (0.15 * (1 - 0.5 * sin (ang / 2)) / (ratio powr 0.3))"
    unfolding anastomosis_floor
    by (simp only: getRegionCorrectionFactor_def RegionType.case fpow_def if_False
        Option.bind.simps fdiv_Some[OF d])
  ultimately show ?thesis by blast
next
  case anastomosis_toe
  then show ?thesis using assms by (simp add: getRegionCorrectionFactor_def)
next
  case anastomosis_heel
  then show ?thesis using assms by (simp add: getRegionCorrectionFactor_def)
next
  case vein_outer
  then show ?thesis using assms by (simp add: getRegionCorrectionFactor_def)
next
  case proximal_artery
  then show ?thesis by (intro exI[of _ "1.0"]) (simp add: getRegionCorrectionFactor_def)
next
  case distal_artery
  then show ?thesis by (intro exI[of _ "0.85"]) (simp add: getRegionCorrectionFactor_def)
next
  case vein_inner
  then show ?thesis by (intro exI[of _ "0.7"]) (simp add: getRegionCorrectionFactor_def)
qed

lemma wallPointWSS_ok:
  assumes ba: "0 \<le> baseA" and bv: "0 \<le> baseV"
    and sn: "0 \<le> sin ang" and cs: "0 \<le> cos (ang / 2)" and ratio: "0 < ratio"
    and ne: "wave \<noteq> []" and pos: "\<forall>w\<in>set wave. 0 \<le> w"
  shows "\<exists>b. wallPointWSS baseA baseV ang ratio wave wp = Some b \<and>
           (0 \<le> osi (snd b) \<and> osi (snd b) \<le> 1 / 2 \<and>
            (\<not> (regionType (fst b) = anastomosis_floor \<or>
                 (regionType (fst b) = vein_inner \<and> ang > pi / 6))
               \<longrightarrow> osi (snd b) \<le> 15 / 100))"
proof -
  define base where
    "base = (if regionType wp = vein_outer \<or> regionType wp = vein_inner then baseV else baseA)"
  have base: "0 \<le> base" using ba bv by (simp add: base_def)
  obtain c where c: "getRegionCorrectionFactor (regionType wp) ang ratio = Some c" "0 \<le> c"
    using getRegionCorrectionFactor_ok[OF sn cs ratio] by blast
  define sv where "sv = 1 + 0.1 * sin (paramPosition wp * pi * 4)"
  have sv: "0 \<le> sv"
    unfolding sv_def using sin_ge_minus_one[of "paramPosition wp * pi * 4"] by linarith
  define ts where "ts = map (\<lambda>w. base * c * sv * w) wave"
  have k: "0 \<le> base * c * sv" using base c(2) sv by (intro mult_nonneg_nonneg)
  have tspos: "\<forall>w\<in>set ts. 0 \<le> w" using pos k by (auto simp: ts_def intro: mult_nonneg_nonneg)
  have tsne: "ts \<noteq> []" using ne by (simp add: ts_def)
  have n0: "real (length ts) \<noteq> 0" using tsne by simp
  define tw where "tw = foldl (\<lambda>a b. a + \<bar>b\<bar>) 0 ts / real (length ts)"
  obtain v where v: "calculateOSI ts (regionType wp) ang = Some v" "0 \<le> v" "v \<le> 1 / 2"
      "\<not> (regionType wp = anastomosis_floor \<or> (regionType wp = vein_inner \<and> ang > pi / 6))
         \<longrightarrow> v \<le> 15 / 100"
  proof (cases "regionType wp = anastomosis_floor \<or> (regionType wp = vein_inner \<and> ang > pi / 6)")
    case True
    then show ?thesis using calculateOSI_recirculating[of "regionType wp" ang ts] that by blast
  next
    case False
    obtain v where "calculateOSI ts (regionType wp) ang = Some v" "5 / 100 \<le> v" "v \<le> 15 / 100"
      using calculateOSI_unidirectional[OF False tsne tspos] by blast
    then show ?thesis using that[of v] by simp
  qed
  have "wallPointWSS baseA baseV ang ratio wave wp = Some (wp, \<lparr>tawss = tw, osi = v, rrt = calculateRRT tw v\<rparr>)"
    unfolding wallPointWSS_def Let_def
    by (simp only: base_def[symmetric] c(1) Option.bind.simps sv_def[symmetric] ts_def[symmetric]
        fdiv_Some[OF n0] tw_def[symmetric] v(1))
  then show ?thesis using v(2-4) by simp
qed

lemma recirculation_angle: "(angle * pi) / 180 > pi / 6 \<longleftrightarrow> 30 < (angle::real)"
proof -
  have "(angle * pi) / 180 > pi / 6 \<longleftrightarrow> pi * 30 < pi * angle" by (simp add: field_simps)
  also have "\<dots> \<longleftrightarrow> 30 < angle" using pi_gt_zero by (simp only: mult_less_cancel_left_pos)
  finally show ?thesis .
qed

lemma calculateHemodynamics_ok:
  assumes ad: "0 < arteryDiameter p" and vd: "0 < veinDiameter p"
    and a0: "0 < anastomosisAngle p" and a90: "anastomosisAngle p \<le> 90"
    and q: "0 \<le> bloodFlowRate p" and hr: "0 < heartRate p"
  shows "\<exists>r. calculateHemodynamics p = Some r \<and>
           (\<forall>b\<in>set (wallWSS r).
              0 \<le> osi (snd b) \<and> osi (snd b) \<le> 1 / 2 \<and>
              (\<not> (regionType (fst b) = anastomosis_floor \<or>
                   (regionType (fst b) = vein_inner \<and> (anastomosisAngle p * pi) / 180 > pi / 6))
                 \<longrightarrow> osi (snd b) \<le> 15 / 100))"
  unfolding calculateHemodynamics_def Let_def
  apply (rule bind_exI)
   apply (rule generateGeometry_ok[OF a0 a90])
  apply (rule bind_exI)
   apply (rule calculateBloodProperties_ok[OF ad])
  apply (rule bind_exI)
   apply (rule calculateFlowSplit_ok[OF ad vd])
  apply (rule bind_exI)
   apply (rule generatePulsatileWaveform_positive)
  subgoal using hr by simp
  subgoal by simp
  apply (rule bind_exI)
   apply (rule fdiv_pos[OF vd ad])
  apply (rule bind_exI)
   apply (rule wallShearRate_ok)
  subgoal using q by simp
  subgoal using ad by simp
  apply (rule bind_exI)
   apply (rule wallShearRate_ok)
  subgoal for g bp fs using q by simp
  subgoal using vd by simp
  apply (rule bind_exI)
   apply (rule traverse_range)
   apply (rule wallPointWSS_ok)
  subgoal for g bp fs w ratio sa sv
    using carreauViscosity_pos[of sa "hematocrit p"] by (intro mult_nonneg_nonneg) linarith+
  subgoal for g bp fs w ratio sa sv
    using carreauViscosity_pos[of sv "hematocrit p"] by (intro mult_nonneg_nonneg) linarith+
  subgoal using angleRad_range(1)[OF a0 a90] by linarith
  subgoal using angleRad_range(3,4)[OF a0 a90] by (intro cos_ge_zero) linarith+
  subgoal by simp
  subgoal by simp
  subgoal by simp
  subgoal for g bp fs w ratio sa sv wss
    by (intro exI[of _ "\<lparr>wallWSS = wss, flowSplit = fs\<rparr>"] conjI refl) force
  done

text \<open>
  C4.  For valid parameters (positive diameters, an angle in (0, 90], a flow rate that is
  not negative, a positive heart rate), calculateHemodynamics returns a result, and at every
  wall point of it the OSI lies in [0, 0.5]; at every wall point whose region is neither the
  anastomosis floor nor the vein-inner region with an angle above 30 degrees, the OSI is at
  most 0.15.
\<close>

theorem calculateHemodynamics_osi_range:
  assumes "0 < arteryDiameter p" "0 < veinDiameter p"
    and "0 < anastomosisAngle p" "anastomosisAngle p \<le> 90"
    and "0 \<le> bloodFlowRate p" "0 < heartRate p"
  shows "\<exists>r. calculateHemodynamics p = Some r \<and>
           (\<forall>b\<in>set (wallWSS r).
              0 \<le> osi (snd b) \<and> osi (snd b) \<le> 1 / 2 \<and>
              (regionType (fst b) \<noteq> anastomosis_floor \<and>
               \<not> (regionType (fst b) = vein_inner \<and> 30 < anastomosisAngle p)
                 \<longrightarrow> osi (snd b) \<le> 15 / 100))"
  using calculateHemodynamics_ok[OF assms] unfolding recirculation_angle by simp

theorem calculateHemodynamics_osi_range_witness:
  "\<exists>r. calculateHemodynamics DEFAULT_PARAMS = Some r \<and>
       (\<forall>b\<in>set (wallWSS r).
          0 \<le> osi (snd b) \<and> osi (snd b) \<le> 1 / 2 \<and>
          (regionType (fst b) \<noteq> anastomosis_floor \<and>
           \<not> (regionType (fst b) = vein_inner \<and> (30::real) < 45)
             \<longrightarrow> osi (snd b) \<le> 15 / 100))"
  using calculateHemodynamics_osi_range [of DEFAULT_PARAMS] by (simp add: DEFAULT_PARAMS_def)

end
